theory Spec2Isabelle
  imports Main
begin

section \<open>The normalizing factory of the optimizer (pkg/sql/opt/norm/factory.go)\<close>

text \<open>
  A shallow embedding of \<^verbatim>\<open>factory.go\<close>. The factory is a mutable Go struct; here every
  method takes the factory state and returns the updated one. A Go panic is a value:
  a method returns \<open>Panicked p\<close> together with the state as it was when the panic was
  raised (Go does not roll mutations back when a panic unwinds).

  The packages \<^verbatim>\<open>memo\<close>, \<^verbatim>\<open>opt\<close>, \<^verbatim>\<open>props\<close>, \<^verbatim>\<open>tree\<close>, \<^verbatim>\<open>types\<close>, \<^verbatim>\<open>eval\<close>, \<^verbatim>\<open>errorutil\<close> and the
  generated \<^verbatim>\<open>factory.og.go\<close> are not part of the sources at hand. What the factory uses
  of them is either a parameter (record \<open>env\<close>) or a definition whose comment starts
  with "Modelled from the spec".
\<close>

subsection \<open>Values, types and errors\<close>

type_synonym ColumnID = nat
type_synonym ColList = "nat list"
type_synonym ColSet = "nat list"
type_synonym UniqueID = nat

text \<open>
  Modelled from the spec: \<^verbatim>\<open>types.T\<close>, the static type of a scalar; a tuple type lists
  the types of its elements.
\<close>

datatype T = TUnknown | TBool | TInt | TString | TTuple "T list"

text \<open>
  Modelled from the spec: \<^verbatim>\<open>tree.Datum\<close>, an evaluated value: null, a boolean, or any
  other literal.
\<close>

datatype Datum = DNull | DBool bool | DInt int | DString string

text \<open>
  Modelled from the spec: \<^verbatim>\<open>tree.TypedExpr\<close> as a placeholder holds it, "a symbolic
  reference to the eventual value".
\<close>

datatype TypedExpr = Placeholder nat

text \<open>Go \<^verbatim>\<open>error\<close> values, and what a \<^verbatim>\<open>panic\<close> can carry (any value).\<close>

datatype error = AssertionFailed string | RuntimeError string | EvalError string

datatype PanicValue = ErrorValue error | OtherValue string

datatype 'a outcome = Returned 'a | Panicked PanicValue

datatype RuleName = SimplifyZeroCardinalityGroup | NormRule nat

subsection \<open>Expressions\<close>

text \<open>
  Modelled from the spec: \<^verbatim>\<open>opt.Expr\<close>, "a node tagged by an operator kind, holding an
  ordered sequence of child expressions and kind-specific immutable private data". The
  constructors of \<open>Node\<close> are the Go struct types the file names (\<^verbatim>\<open>memo.ValuesExpr\<close> with
  its \<^verbatim>\<open>ValuesPrivate{Cols, ID}\<close>, \<^verbatim>\<open>memo.PlaceholderExpr{Value, Typ}\<close>, ...); every other
  relational or scalar operator is \<open>RelNode op private\<close> or \<open>ScalarNode op private\<close>.
\<close>

datatype Node =
    ValuesNode ColList UniqueID
  | RelNode nat nat
  | PlaceholderNode TypedExpr T
  | NullNode T
  | TrueNode
  | FalseNode
  | ConstNode Datum T
  | VariableNode ColumnID
  | EqNode
  | InNode
  | TupleNode T
  | FiltersItemNode
  | ScalarNode nat nat

datatype expr = Expr Node "expr list"

datatype Operator =
    ValuesOp | RelOp nat | PlaceholderOp | NullOp | TrueOp | FalseOp | ConstOp
  | VariableOp | EqOp | InOp | TupleOp | FiltersItemOp | ScalarOp nat

fun NodeOp :: "Node \<Rightarrow> Operator" where
  "NodeOp (ValuesNode cols uid) = ValuesOp"
| "NodeOp (RelNode k p) = RelOp k"
| "NodeOp (PlaceholderNode v t) = PlaceholderOp"
| "NodeOp (NullNode t) = NullOp"
| "NodeOp TrueNode = TrueOp"
| "NodeOp FalseNode = FalseOp"
| "NodeOp (ConstNode d t) = ConstOp"
| "NodeOp (VariableNode c) = VariableOp"
| "NodeOp EqNode = EqOp"
| "NodeOp InNode = InOp"
| "NodeOp (TupleNode t) = TupleOp"
| "NodeOp FiltersItemNode = FiltersItemOp"
| "NodeOp (ScalarNode k p) = ScalarOp k"

fun Op :: "expr \<Rightarrow> Operator" where
  "Op (Expr n kids) = NodeOp n"

text \<open>Whether a node is a \<^verbatim>\<open>memo.RelExpr\<close> (the Go type assertion \<^verbatim>\<open>e.(memo.RelExpr)\<close>).\<close>

fun IsRelOp :: "Operator \<Rightarrow> bool" where
  "IsRelOp ValuesOp = True"
| "IsRelOp (RelOp k) = True"
| "IsRelOp other = False"

definition IsRelExpr :: "expr \<Rightarrow> bool" where
  "IsRelExpr e = IsRelOp (Op e)"

text \<open>\<^verbatim>\<open>memo.TrueSingleton\<close> and \<^verbatim>\<open>memo.FalseSingleton\<close>: process-wide nodes, in no memo.\<close>

definition TrueSingleton :: expr where
  "TrueSingleton = Expr TrueNode []"

definition FalseSingleton :: expr where
  "FalseSingleton = Expr FalseNode []"

subsection \<open>Logical properties\<close>

text \<open>
  Modelled from the spec: \<^verbatim>\<open>props.Cardinality\<close> is a row-count range, and
  "cardinality of exactly zero" is the range [0,0].
\<close>

record Cardinality =
  Min_rows :: nat
  Max_rows :: nat

definition IsZero :: "Cardinality \<Rightarrow> bool" where
  "IsZero c = (Min_rows c = 0 \<and> Max_rows c = 0)"

text \<open>
  Modelled from the spec: \<^verbatim>\<open>props.VolatilitySet\<close> collects the volatility classes of the
  operators that contribute to a node; a node is leakproof when no operator added a
  class, that is when every contributing operator is leakproof.
\<close>

datatype Volatility = Immutable | Stable | Volatile

type_synonym VolatilitySet = "Volatility list"

definition IsLeakproof :: "VolatilitySet \<Rightarrow> bool" where
  "IsLeakproof vs = (vs = [])"

record Relational =
  Cardinality :: Cardinality
  VolatilitySet :: VolatilitySet
  OutputCols :: ColSet

subsection \<open>The memo\<close>

text \<open>
  Modelled from the spec: \<^verbatim>\<open>physical.Required\<close>, the required physical properties of the
  root (opaque here).
\<close>

datatype Required = Required nat

text \<open>
  Modelled from the spec: \<^verbatim>\<open>opt.Metadata\<close> maps identifiers to column and table
  descriptors and hands out unique ids; a table descriptor can embed scalar expressions
  (computed columns, constraints).
\<close>

record TableMeta =
  tabName :: string
  tabExprs :: "expr list"

record Metadata =
  mdCols :: "(nat \<times> string) list"
  mdTables :: "(nat \<times> TableMeta) list"
  currUniqueID :: nat

text \<open>
  Modelled from the spec: \<^verbatim>\<open>memo.Memo\<close> owns the interned expressions (one group per
  structurally distinct expression; the group of an expression is its position in
  \<open>interner\<close>), the rank counter of scalar expressions, the metadata, and the root
  with its required properties.
\<close>

record Memo =
  interner :: "expr list"
  curRank :: nat
  metadata :: Metadata
  rootExpr :: "expr option"
  rootProps :: "Required option"

subsection \<open>The factory\<close>

type_synonym MatchedRuleFunc = "RuleName \<Rightarrow> bool"

text \<open>
  An \<^verbatim>\<open>AppliedRuleFunc\<close> acts on the world outside the factory only. It is identified by a
  handle, and each call of it is recorded in \<open>trace\<close> with its arguments.
\<close>

type_synonym AppliedRuleFunc = nat

datatype Event =
    ReportSent error
  | AppliedRuleCalled AppliedRuleFunc RuleName "expr option" expr

type_synonym EvalContext = "(nat \<times> Datum) list"

text \<open>
  \<^verbatim>\<open>type Factory struct\<close>. The field \<open>trace\<close> is not a field of the Go struct: it
  records, in order, what the factory does to its environment (reports sent to the
  error-reporting sink, calls of the applied-rule callback).
\<close>

record Factory =
  evalCtx :: EvalContext
  mem :: Memo
  matchedRule :: "MatchedRuleFunc option"
  appliedRule :: "AppliedRuleFunc option"
  catalog :: "nat option"
  foldingControl :: bool
  constructorStackDepth :: int
  disabledRules :: "nat set"
  trace :: "Event list"

type_synonym 'a M = "Factory \<Rightarrow> 'a outcome \<times> Factory"

definition returnM :: "'a \<Rightarrow> 'a M" where
  "returnM x f = (Returned x, f)"

definition panic :: "PanicValue \<Rightarrow> 'a M" where
  "panic p f = (Panicked p, f)"

text \<open>Sequencing: a panic of the first computation skips the second.\<close>

definition andThen :: "'a M \<Rightarrow> ('a \<Rightarrow> 'b M) \<Rightarrow> 'b M" where
  "andThen m k f = (case m f of (Panicked p, f') \<Rightarrow> (Panicked p, f') | (Returned x, f') \<Rightarrow> k x f')"

fun mapM :: "('a \<Rightarrow> 'b M) \<Rightarrow> 'a list \<Rightarrow> ('b list) M" where
  "mapM g [] = returnM []"
| "mapM g (x # xs) = andThen (g x) (\<lambda>y. andThen (mapM g xs) (\<lambda>ys. returnM (y # ys)))"

text \<open>
  A normalization rule. Modelled from the spec: "each external rule is a pure function
  pair (match: node to optional structured capture; replace: capture to new node)";
  \<open>rewrite r e\<close> is \<open>None\<close> when the pattern of \<open>r\<close> does not match \<open>e\<close>, and the
  replacement node otherwise.
\<close>

record Rule =
  ruleName :: RuleName
  rewrite :: "expr \<Rightarrow> expr option"

text \<open>
  What the factory consumes through interfaces: the build flag
  \<^verbatim>\<open>buildutil.CrdbTestBuild\<close>, the rewrite rules, the provider of the cached logical
  properties (\<^verbatim>\<open>rel.Relational()\<close>) and the scalar evaluator \<^verbatim>\<open>eval.Expr\<close>.
\<close>

record env =
  CrdbTestBuild :: bool
  rules :: "Rule list"
  cachedProps :: "expr \<Rightarrow> Relational"
  evalExpr :: "EvalContext \<Rightarrow> TypedExpr \<Rightarrow> error + Datum"

subsection \<open>Rule notification and disabling (lines 169-209)\<close>

definition NotifyOnMatchedRule :: "MatchedRuleFunc option \<Rightarrow> Factory \<Rightarrow> Factory" where
  "NotifyOnMatchedRule cb f = f\<lparr>matchedRule := cb\<rparr>"

definition NotifyOnAppliedRule :: "AppliedRuleFunc option \<Rightarrow> Factory \<Rightarrow> Factory" where
  "NotifyOnAppliedRule cb f = f\<lparr>appliedRule := cb\<rparr>"

definition SetDisabledRules :: "nat set \<Rightarrow> Factory \<Rightarrow> Factory" where
  "SetDisabledRules rs f = f\<lparr>disabledRules := rs\<rparr>"

definition DisableOptimizations :: "Factory \<Rightarrow> Factory" where
  "DisableOptimizations f = NotifyOnMatchedRule (Some (\<lambda>r. False)) f"

text \<open>
  \<^verbatim>\<open>fn\<close> is a Go closure without parameters; it can reach the factory it captured, so
  it is a computation on the factory state. The last assignment is not deferred: it is
  skipped when \<^verbatim>\<open>fn\<close> panics.
\<close>

definition DisableOptimizationsTemporarily :: "unit M \<Rightarrow> unit M" where
  "DisableOptimizationsTemporarily fn f =
     (let originalMatchedRule = matchedRule f;
          f1 = DisableOptimizations f
      in case fn f1 of
           (Panicked p, f2) \<Rightarrow> (Panicked p, f2)
         | (Returned u, f2) \<Rightarrow> (Returned (), f2\<lparr>matchedRule := originalMatchedRule\<rparr>))"

subsection \<open>Memo operations\<close>

text \<open>
  Modelled from the spec: \<^verbatim>\<open>isEmpty()\<close>. A memo is empty when nothing was interned in it
  and it has no root.
\<close>

definition IsEmpty :: "Memo \<Rightarrow> bool" where
  "IsEmpty m = (interner m = [] \<and> rootExpr m = None)"

text \<open>
  Modelled from the spec: \<^verbatim>\<open>copyNextRankFrom(other)\<close> seeds the rank counter of this memo
  past every rank the source memo has used. The ranks a memo has used are \<open>1..curRank\<close>.
\<close>

definition CopyNextRankFrom :: "Memo \<Rightarrow> Memo \<Rightarrow> Memo" where
  "CopyNextRankFrom other m = m\<lparr>curRank := curRank other\<rparr>"

text \<open>Modelled from the spec: \<^verbatim>\<open>setRoot(expr, requiredProps)\<close>.\<close>

definition SetRoot :: "expr \<Rightarrow> Required option \<Rightarrow> Memo \<Rightarrow> Memo" where
  "SetRoot e phys m = m\<lparr>rootExpr := Some e, rootProps := phys\<rparr>"

text \<open>Modelled from the spec: \<^verbatim>\<open>nextUniqueID()\<close> hands out the next unused id.\<close>

definition NextUniqueID :: "Metadata \<Rightarrow> UniqueID \<times> Metadata" where
  "NextUniqueID md = (currUniqueID md + 1, md\<lparr>currUniqueID := currUniqueID md + 1\<rparr>)"

text \<open>
  Modelled from the spec: interning. "If, after normalization, the expression is already
  part of the memo, then construction is a no-op. Otherwise, a new memo group is
  created, with the normalized expression as its first and only expression." A new
  scalar expression takes the next rank.
\<close>

definition Memoize :: "expr \<Rightarrow> Memo \<Rightarrow> Memo" where
  "Memoize e m =
     (if e \<in> set (interner m) then m
      else m\<lparr>interner := interner m @ [e],
             curRank := (if IsRelExpr e then curRank m else curRank m + 1)\<rparr>)"



subsection \<open>The depth guard (lines 105-113, 346-358)\<close>

definition maxConstructorStackDepth :: int where
  "maxConstructorStackDepth = 10000"

text \<open>Modelled from the spec: \<^verbatim>\<open>errorutil.SendReport\<close> reports to the observability sink.\<close>

definition SendReport :: "error \<Rightarrow> Factory \<Rightarrow> Factory" where
  "SendReport err f = f\<lparr>trace := trace f @ [ReportSent err]\<rparr>"

definition onMaxConstructorStackDepthExceeded :: "env \<Rightarrow> unit M" where
  "onMaxConstructorStackDepthExceeded env f =
     (let err = AssertionFailed
                  ''optimizer factory constructor call stack exceeded max depth of 10000''
      in if CrdbTestBuild env then (Panicked (ErrorValue err), f)
         else (Returned (), SendReport err f))"

subsection \<open>The finishing hooks (lines 360-392)\<close>

text \<open>\<^verbatim>\<open>f.matchedRule == nil || f.matchedRule(name)\<close>\<close>

definition ruleAllowed :: "Factory \<Rightarrow> RuleName \<Rightarrow> bool" where
  "ruleAllowed f name = (case matchedRule f of None \<Rightarrow> True | Some cb \<Rightarrow> cb name)"

text \<open>\<^verbatim>\<open>if f.appliedRule != nil { f.appliedRule(name, nil, target) }\<close>\<close>

definition notifyApplied :: "RuleName \<Rightarrow> expr \<Rightarrow> Factory \<Rightarrow> Factory" where
  "notifyApplied name target f =
     (case appliedRule f of
        None \<Rightarrow> f
      | Some cb \<Rightarrow> f\<lparr>trace := trace f @ [AppliedRuleCalled cb name None target]\<rparr>)"

text \<open>
  Modelled from the spec: \<^verbatim>\<open>CustomFuncs.ConstructEmptyValues\<close> builds "an empty
  values-producer exposing the same output columns": a Values node without rows whose
  column list is the given column set, with a fresh unique id (as
  \<^verbatim>\<open>ConstructZeroValues\<close> at lines 402-407 does), interned in the memo.
\<close>

definition ConstructEmptyValues :: "ColSet \<Rightarrow> Factory \<Rightarrow> expr \<times> Factory" where
  "ConstructEmptyValues cols f =
     (let (uid, md) = NextUniqueID (metadata (mem f));
          values = Expr (ValuesNode cols uid) []
      in (values, f\<lparr>mem := Memoize values ((mem f)\<lparr>metadata := md\<rparr>)\<rparr>))"

definition onConstructRelational :: "env \<Rightarrow> expr \<Rightarrow> Factory \<Rightarrow> expr \<times> Factory" where
  "onConstructRelational env rel f =
     (if Op rel \<noteq> ValuesOp then
        (let relational = cachedProps env rel in
         if IsZero (Cardinality relational) \<and> IsLeakproof (VolatilitySet relational) then
           (if ruleAllowed f SimplifyZeroCardinalityGroup then
              (let (values, f1) = ConstructEmptyValues (OutputCols relational) f
               in (values, notifyApplied SimplifyZeroCardinalityGroup values f1))
            else (rel, f))
         else (rel, f))
      else (rel, f))"

definition onConstructScalar :: "expr \<Rightarrow> expr" where
  "onConstructScalar scalar = scalar"

subsection \<open>The construction protocol\<close>

text \<open>
  Modelled from the spec: the first rule, in order, whose pattern matches the node and
  that the match-veto callback allows ("each time asking the match-veto callback (if
  installed) whether the match is allowed"); with its replacement.
\<close>

fun findRule :: "Factory \<Rightarrow> Rule list \<Rightarrow> expr \<Rightarrow> (Rule \<times> expr) option" where
  "findRule f [] e = None"
| "findRule f (r # rs) e =
     (case rewrite r e of
        None \<Rightarrow> findRule f rs e
      | Some e' \<Rightarrow> if ruleAllowed f (ruleName r) then Some (r, e') else findRule f rs e)"

text \<open>
  Modelled from the spec: the end of the protocol, "intern it into the memo; run the
  fixed finishing hook (\<open>onConstructRelational\<close> for relational nodes,
  \<open>onConstructScalar\<close> for scalar nodes); decrement the depth counter on exit".
\<close>

definition internAndFinish :: "env \<Rightarrow> expr \<Rightarrow> expr M" where
  "internAndFinish env e f =
     (let f1 = f\<lparr>mem := Memoize e (mem f)\<rparr>;
          (x, f2) = (if IsRelExpr e then onConstructRelational env e f1
                     else (onConstructScalar e, f1))
      in (Returned x, f2\<lparr>constructorStackDepth := constructorStackDepth f2 - 1\<rparr>))"

text \<open>
  Modelled from the spec: the protocol of every generated constructor
  (\<^verbatim>\<open>factory.og.go\<close>). "Increment the shared recursion-depth counter on entry; build the
  raw node from inputs; repeatedly apply every externally-supplied rewrite rule whose
  pattern matches the current node, each time asking the match-veto callback (if
  installed) whether the match is allowed, and if applied, constructing the rule's
  replacement (itself going through this same protocol) and substituting it, [...] until
  the depth guard fires; once a terminal node is reached, intern it into the memo; run
  the fixed finishing hook; decrement the depth counter on exit." When the counter
  exceeds \<open>maxConstructorStackDepth\<close>, \<open>onMaxConstructorStackDepthExceeded\<close> is called and
  the rules are skipped.
\<close>

function construct :: "env \<Rightarrow> expr \<Rightarrow> Factory \<Rightarrow> expr outcome \<times> Factory" where
  "construct env e f =
     (let f1 = f\<lparr>constructorStackDepth := constructorStackDepth f + 1\<rparr> in
      if constructorStackDepth f1 > maxConstructorStackDepth then
        (case onMaxConstructorStackDepthExceeded env f1 of
           (Panicked p, f2) \<Rightarrow> (Panicked p, f2)
         | (Returned u, f2) \<Rightarrow> internAndFinish env e f2)
      else
        (case findRule f1 (rules env) e of
           None \<Rightarrow> internAndFinish env e f1
         | Some (r, e') \<Rightarrow>
             (case construct env e' f1 of
                (Panicked p, f2) \<Rightarrow> (Panicked p, f2)
              | (Returned x, f2) \<Rightarrow>
                  (let f3 = notifyApplied (ruleName r) x f2
                   in (Returned x,
                       f3\<lparr>constructorStackDepth := constructorStackDepth f3 - 1\<rparr>)))))"
  by pat_completeness auto
termination
  by (relation "measure (\<lambda>(env, e, f). nat (maxConstructorStackDepth + 1 - constructorStackDepth f))")
     auto

declare construct.simps [simp del]

subsection \<open>Typed constructors\<close>

text \<open>
  Modelled from the spec: the typed construction entry points of the generated code, each
  an instance of the construction protocol ("applies uniformly to every
  node-constructing entry point").
\<close>

definition ConstructValues :: "env \<Rightarrow> expr list \<Rightarrow> ColList \<Rightarrow> UniqueID \<Rightarrow> expr M" where
  "ConstructValues env rows cols uid = construct env (Expr (ValuesNode cols uid) rows)"

definition ConstructNull :: "env \<Rightarrow> T \<Rightarrow> expr M" where
  "ConstructNull env t = construct env (Expr (NullNode t) [])"

definition ConstructConst :: "env \<Rightarrow> Datum \<Rightarrow> T \<Rightarrow> expr M" where
  "ConstructConst env d t = construct env (Expr (ConstNode d t) [])"

definition ConstructVariable :: "env \<Rightarrow> ColumnID \<Rightarrow> expr M" where
  "ConstructVariable env col = construct env (Expr (VariableNode col) [])"

definition ConstructEq :: "env \<Rightarrow> expr \<Rightarrow> expr \<Rightarrow> expr M" where
  "ConstructEq env left right = construct env (Expr EqNode [left, right])"

definition ConstructIn :: "env \<Rightarrow> expr \<Rightarrow> expr \<Rightarrow> expr M" where
  "ConstructIn env left right = construct env (Expr InNode [left, right])"

definition ConstructTuple :: "env \<Rightarrow> expr list \<Rightarrow> T \<Rightarrow> expr M" where
  "ConstructTuple env elems t = construct env (Expr (TupleNode t) elems)"

definition ConstructFiltersItem :: "env \<Rightarrow> expr \<Rightarrow> expr M" where
  "ConstructFiltersItem env condition = construct env (Expr FiltersItemNode [condition])"

subsection \<open>Convenience construction methods (lines 394-479)\<close>

text \<open>\<^verbatim>\<open>ConstructZeroValues\<close>: a Values operator with zero rows and zero columns.\<close>

definition ConstructZeroValues :: "env \<Rightarrow> expr M" where
  "ConstructZeroValues env f =
     (let (uid, md) = NextUniqueID (metadata (mem f))
      in ConstructValues env [] [] uid (f\<lparr>mem := (mem f)\<lparr>metadata := md\<rparr>\<rparr>))"

definition ConstructConstVal :: "env \<Rightarrow> Datum \<Rightarrow> T \<Rightarrow> expr M" where
  "ConstructConstVal env d t =
     (if d = DNull then ConstructNull env t
      else (case d of
              DBool boolVal \<Rightarrow> if boolVal then returnM TrueSingleton else returnM FalseSingleton
            | _ \<Rightarrow> ConstructConst env d t))"

text \<open>Modelled from the spec: \<^verbatim>\<open>Datum.ResolvedType()\<close>, the type a value resolves to.\<close>

fun ResolvedType :: "Datum \<Rightarrow> T" where
  "ResolvedType DNull = TUnknown"
| "ResolvedType (DBool b) = TBool"
| "ResolvedType (DInt i) = TInt"
| "ResolvedType (DString s) = TString"

text \<open>
  Modelled from the spec: \<^verbatim>\<open>types.MakeTuple\<close>, the tuple type with the given element
  types.
\<close>

definition MakeTuple :: "T list \<Rightarrow> T" where
  "MakeTuple elemTypes = TTuple elemTypes"

text \<open>
  The loop of \<^verbatim>\<open>ConstructConstFilter\<close> (lines 470-474). It fills the slots of two slices
  of length \<^verbatim>\<open>len(values)\<close> in index order; the accumulators hold the slots filled so
  far.
\<close>

fun constFilterLoop :: "env \<Rightarrow> Datum list \<Rightarrow> expr list \<Rightarrow> T list \<Rightarrow> (expr list \<times> T list) M" where
  "constFilterLoop env [] elems elemTypes = returnM (elems, elemTypes)"
| "constFilterLoop env (v # vs) elems elemTypes =
     (let typ = ResolvedType v
      in andThen (ConstructConstVal env v typ)
           (\<lambda>c. constFilterLoop env vs (elems @ [c]) (elemTypes @ [typ])))"

text \<open>
  Go evaluates the arguments of a call from left to right: the variable is constructed
  before the constant, and, in the second branch, after the loop and before the tuple.
\<close>

definition ConstructConstFilter :: "env \<Rightarrow> ColumnID \<Rightarrow> Datum list \<Rightarrow> expr M" where
  "ConstructConstFilter env col vals =
     (if length vals = 1 then
        andThen (ConstructVariable env col) (\<lambda>var.
        andThen (ConstructConstVal env (vals ! 0) (ResolvedType (vals ! 0))) (\<lambda>c.
        andThen (ConstructEq env var c) (\<lambda>eq.
        ConstructFiltersItem env eq)))
      else
        andThen (constFilterLoop env vals [] []) (\<lambda>(elems, elemTypes).
        andThen (ConstructVariable env col) (\<lambda>var.
        andThen (ConstructTuple env elems (MakeTuple elemTypes)) (\<lambda>tup.
        andThen (ConstructIn env var tup) (\<lambda>inExpr.
        ConstructFiltersItem env inExpr)))))"

subsection \<open>Copy and replace (lines 232-293)\<close>

text \<open>
  Modelled from the spec: \<^verbatim>\<open>invokeReplace\<close> "invokes the caller's substitution function"
  on the node.
\<close>

definition invokeReplace :: "expr \<Rightarrow> (expr \<Rightarrow> expr M) \<Rightarrow> expr M" where
  "invokeReplace src replace = replace src"

text \<open>
  Modelled from the spec: \<^verbatim>\<open>CopyAndReplaceDefault\<close> "reconstructs a node of the same
  operator kind by recursively substituting each child first, then calling the
  equivalent typed construction entry point".
\<close>

definition CopyAndReplaceDefault :: "env \<Rightarrow> expr \<Rightarrow> (expr \<Rightarrow> expr M) \<Rightarrow> expr M" where
  "CopyAndReplaceDefault env src replace =
     (case src of Expr n kids \<Rightarrow>
        andThen (mapM (\<lambda>k. invokeReplace k replace) kids) (\<lambda>kids'. construct env (Expr n kids')))"

text \<open>
  \<^verbatim>\<open>CopyWithoutAssigningPlaceholders\<close> passes itself as the callback of
  \<^verbatim>\<open>CopyAndReplaceDefault\<close>. The recursion is over the children of the node;
  \<open>CopyWithoutAssigningPlaceholders_list\<close> is the traversal of a list of children.
\<close>

fun CopyWithoutAssigningPlaceholders :: "env \<Rightarrow> expr \<Rightarrow> expr M"
  and CopyWithoutAssigningPlaceholders_list :: "env \<Rightarrow> expr list \<Rightarrow> (expr list) M" where
  "CopyWithoutAssigningPlaceholders env (Expr n kids) =
     andThen (CopyWithoutAssigningPlaceholders_list env kids) (\<lambda>kids'. construct env (Expr n kids'))"
| "CopyWithoutAssigningPlaceholders_list env [] = returnM []"
| "CopyWithoutAssigningPlaceholders_list env (k # ks) =
     andThen (CopyWithoutAssigningPlaceholders env k) (\<lambda>y.
     andThen (CopyWithoutAssigningPlaceholders_list env ks) (\<lambda>ys. returnM (y # ys)))"

text \<open>
  Modelled from the spec: \<^verbatim>\<open>Metadata.CopyFrom\<close> "copies all metadata from the source memo
  into the destination, preserving identifiers, routing any scalar sub-expressions found
  in metadata through" the given copy function. The copies are built in the destination
  factory, so the copy threads the factory state.
\<close>

fun copyTables :: "(expr \<Rightarrow> expr M) \<Rightarrow> (nat \<times> TableMeta) list \<Rightarrow> ((nat \<times> TableMeta) list) M" where
  "copyTables copyScalarFn [] = returnM []"
| "copyTables copyScalarFn ((tid, tm) # rest) =
     andThen (mapM copyScalarFn (tabExprs tm)) (\<lambda>es.
     andThen (copyTables copyScalarFn rest) (\<lambda>ts.
     returnM ((tid, tm\<lparr>tabExprs := es\<rparr>) # ts)))"

definition setMetadata :: "Metadata \<Rightarrow> Factory \<Rightarrow> Factory" where
  "setMetadata md f = f\<lparr>mem := (mem f)\<lparr>metadata := md\<rparr>\<rparr>"

definition Metadata_CopyFrom :: "Metadata \<Rightarrow> (expr \<Rightarrow> expr M) \<Rightarrow> unit M" where
  "Metadata_CopyFrom src copyScalarFn f =
     (let f0 = setMetadata \<lparr>mdCols = mdCols src, mdTables = [], currUniqueID = currUniqueID src\<rparr> f
      in andThen (copyTables copyScalarFn (mdTables src))
           (\<lambda>ts f'. (Returned (), setMetadata ((metadata (mem f'))\<lparr>mdTables := ts\<rparr>) f')) f0)"

text \<open>
  \<^verbatim>\<open>CopyAndReplace\<close>. \<open>fromMemo\<close> is \<^verbatim>\<open>from.Memo()\<close>. The type assertion
  \<^verbatim>\<open>.(memo.RelExpr)\<close> on the result of the callback panics with a runtime error when the
  result is not relational.
\<close>

definition CopyAndReplace ::
  "env \<Rightarrow> Memo \<Rightarrow> expr \<Rightarrow> Required option \<Rightarrow> (expr \<Rightarrow> expr M) \<Rightarrow> unit M" where
  "CopyAndReplace env fromMemo from fromProps replace f =
     (if \<not> IsEmpty (mem f) then
        (Panicked (ErrorValue (AssertionFailed ''destination memo must be empty'')), f)
      else
        (let f1 = f\<lparr>mem := CopyNextRankFrom fromMemo (mem f)\<rparr> in
         andThen (Metadata_CopyFrom (metadata fromMemo) (CopyWithoutAssigningPlaceholders env)) (\<lambda>u.
         andThen (invokeReplace from replace) (\<lambda>to.
           if IsRelExpr to then (\<lambda>f3. (Returned (), f3\<lparr>mem := SetRoot to fromProps (mem f3)\<rparr>))
           else panic (ErrorValue (RuntimeError ''interface conversion: not a memo.RelExpr'')))) f1))"

subsection \<open>Placeholder assignment (lines 295-331)\<close>

text \<open>
  The closure \<^verbatim>\<open>replaceFn\<close> of \<^verbatim>\<open>AssignPlaceholders\<close> (lines 318-327), which passes itself
  to \<^verbatim>\<open>CopyAndReplaceDefault\<close>; \<open>replaceFn_list\<close> is its traversal of a list of
  children.
\<close>

fun replaceFn :: "env \<Rightarrow> expr \<Rightarrow> expr M"
  and replaceFn_list :: "env \<Rightarrow> expr list \<Rightarrow> (expr list) M" where
  "replaceFn env (Expr n kids) =
     (case n of
        PlaceholderNode v t \<Rightarrow>
          (\<lambda>f. case evalExpr env (evalCtx f) v of
                 Inl err \<Rightarrow> panic (ErrorValue err) f
               | Inr d \<Rightarrow> ConstructConstVal env d t f)
      | _ \<Rightarrow> andThen (replaceFn_list env kids) (\<lambda>kids'. construct env (Expr n kids')))"
| "replaceFn_list env [] = returnM []"
| "replaceFn_list env (k # ks) =
     andThen (replaceFn env k) (\<lambda>y.
     andThen (replaceFn_list env ks) (\<lambda>ys. returnM (y # ys)))"





subsection \<open>Initialization (lines 121-144)\<close>

text \<open>Modelled from the spec: \<^verbatim>\<open>Memo.Init\<close> leaves a blank memo.\<close>

definition Memo_Init :: Memo where
  "Memo_Init = \<lparr>interner = [], curRank = 0,
                metadata = \<lparr>mdCols = [], mdTables = [], currUniqueID = 0\<rparr>,
                rootExpr = None, rootProps = None\<rparr>"

text \<open>
  \<^verbatim>\<open>Init\<close> assigns a new struct value: every field but \<^verbatim>\<open>mem\<close>, \<^verbatim>\<open>evalCtx\<close> and
  \<^verbatim>\<open>catalog\<close> gets its zero value, and stable folds are disallowed.
\<close>

definition Init :: "EvalContext \<Rightarrow> nat option \<Rightarrow> Factory \<Rightarrow> Factory" where
  "Init ctx cat f =
     \<lparr>evalCtx = ctx, mem = Memo_Init, matchedRule = None, appliedRule = None,
      catalog = cat, foldingControl = False, constructorStackDepth = 0,
      disabledRules = {}, trace = trace f\<rparr>"

subsection \<open>Sample values\<close>

text \<open>
  A concrete environment and factory, on which the theorems below are instantiated: a
  production build without rewrite rules, whose evaluator looks the placeholder up in
  the evaluation context.
\<close>

definition sampleProps :: "expr \<Rightarrow> Relational" where
  "sampleProps e =
     (case e of
        Expr (RelNode k p) kids \<Rightarrow>
          \<lparr>Cardinality = \<lparr>Min_rows = 0, Max_rows = k\<rparr>,
           VolatilitySet = (if p = 0 then [] else [Volatile]), OutputCols = [1, 2]\<rparr>
      | _ \<Rightarrow> \<lparr>Cardinality = \<lparr>Min_rows = 0, Max_rows = 1\<rparr>, VolatilitySet = [], OutputCols = []\<rparr>)"

definition sampleEval :: "EvalContext \<Rightarrow> TypedExpr \<Rightarrow> error + Datum" where
  "sampleEval ctx v =
     (case v of Placeholder i \<Rightarrow>
        (case map_of ctx i of
           None \<Rightarrow> Inl (EvalError ''no value for placeholder'')
         | Some d \<Rightarrow> Inr d))"

definition sampleEnv :: env where
  "sampleEnv = \<lparr>CrdbTestBuild = False, rules = [], cachedProps = sampleProps,
                evalExpr = sampleEval\<rparr>"

definition zeroFactory :: Factory where
  "zeroFactory =
     \<lparr>evalCtx = [], mem = Memo_Init, matchedRule = None, appliedRule = None, catalog = None,
      foldingControl = False, constructorStackDepth = 0, disabledRules = {}, trace = []\<rparr>"

definition sampleFactory :: Factory where
  "sampleFactory = Init [(1, DInt 5), (2, DBool True)] None zeroFactory"

text \<open>
  A source memo: a selection over a scan whose filter compares column 1 with
  placeholder 1, with table metadata that embeds a scalar expression.
  \<open>unboundMemo\<close> is the same memo with a placeholder for which the sample evaluation
  context has no value.
\<close>

definition sampleRoot :: "nat \<Rightarrow> expr" where
  "sampleRoot i =
     Expr (RelNode 5 0)
       [Expr (RelNode 6 0) [],
        Expr FiltersItemNode
          [Expr EqNode [Expr (VariableNode 1) [], Expr (PlaceholderNode (Placeholder i) TInt) []]]]"

definition sampleMetadata :: Metadata where
  "sampleMetadata =
     \<lparr>mdCols = [(1, ''a''), (2, ''b'')],
      mdTables = [(53, \<lparr>tabName = ''t'',
                        tabExprs = [Expr EqNode [Expr (VariableNode 2) [],
                                                 Expr (ConstNode (DInt 0) TInt) []]]\<rparr>)],
      currUniqueID = 3\<rparr>"

definition sampleMemo :: Memo where
  "sampleMemo =
     \<lparr>interner = [sampleRoot 1], curRank = 7, metadata = sampleMetadata,
      rootExpr = Some (sampleRoot 1), rootProps = Some (Required 4)\<rparr>"


subsection \<open>Notions used to state the properties\<close>

text \<open>
  What constructing nodes leaves alone in a factory: the evaluation context, the
  callbacks, the catalog, the folding control, the disabled-rule set, the column and
  table descriptors of the metadata and the root are unchanged; the unique-id counter
  and the rank counter only grow; interned expressions stay interned, and an interner
  without duplicates stays so.
\<close>

definition preserved :: "Factory \<Rightarrow> Factory \<Rightarrow> bool" where
  "preserved f f' =
     (evalCtx f' = evalCtx f \<and> matchedRule f' = matchedRule f \<and> appliedRule f' = appliedRule f
      \<and> catalog f' = catalog f \<and> foldingControl f' = foldingControl f
      \<and> disabledRules f' = disabledRules f
      \<and> mdCols (metadata (mem f')) = mdCols (metadata (mem f))
      \<and> mdTables (metadata (mem f')) = mdTables (metadata (mem f))
      \<and> rootExpr (mem f') = rootExpr (mem f) \<and> rootProps (mem f') = rootProps (mem f)
      \<and> currUniqueID (metadata (mem f)) \<le> currUniqueID (metadata (mem f'))
      \<and> curRank (mem f) \<le> curRank (mem f')
      \<and> set (interner (mem f)) \<subseteq> set (interner (mem f'))
      \<and> (distinct (interner (mem f)) \<longrightarrow> distinct (interner (mem f'))))"

text \<open>No rewrite rule both matches a node and is allowed by the match-veto callback.\<close>

definition noRuleFires :: "env \<Rightarrow> Factory \<Rightarrow> bool" where
  "noRuleFires env f = (\<forall>e. findRule f (rules env) e = None)"

text \<open>Every rule rewrites a relational node to a relational one and a scalar to a scalar.\<close>

definition rulesKeepKind :: "env \<Rightarrow> bool" where
  "rulesKeepKind env =
     (\<forall>r \<in> set (rules env). \<forall>e e'. rewrite r e = Some e' \<longrightarrow> IsRelExpr e' = IsRelExpr e)"

text \<open>
  A computation that constructs nodes: whatever its outcome it leaves alone what
  \<open>preserved\<close> lists, and when it returns the depth counter is back at its value on
  entry.
\<close>

definition constructs :: "'a M \<Rightarrow> bool" where
  "constructs m =
     (\<forall>f r f'. m f = (r, f') \<longrightarrow>
        preserved f f' \<and> (\<forall>x. r = Returned x \<longrightarrow> constructorStackDepth f' = constructorStackDepth f))"

text \<open>
  A factory in which constructors apply no rule and the depth guard does not trip:
  no rule fires and the depth counter is below the threshold.
\<close>

definition quiet :: "env \<Rightarrow> Factory \<Rightarrow> bool" where
  "quiet env f = (noRuleFires env f \<and> constructorStackDepth f < maxConstructorStackDepth)"

text \<open>
  A factory in which no constructor panics: a production build (the depth guard only
  reports), or a quiet factory.
\<close>

definition safe :: "env \<Rightarrow> Factory \<Rightarrow> bool" where
  "safe env f = (\<not> CrdbTestBuild env \<or> quiet env f)"

text \<open>
  The error of the first placeholder, in the order of the traversal (a node before its
  right siblings, children from left to right), whose bound value fails to evaluate;
  \<open>None\<close> when every placeholder evaluates.
\<close>

fun firstEvalError :: "env \<Rightarrow> EvalContext \<Rightarrow> expr \<Rightarrow> error option"
  and firstEvalError_list :: "env \<Rightarrow> EvalContext \<Rightarrow> expr list \<Rightarrow> error option" where
  "firstEvalError env ctx (Expr n kids) =
     (case n of
        PlaceholderNode v t \<Rightarrow> (case evalExpr env ctx v of Inl err \<Rightarrow> Some err | Inr d \<Rightarrow> None)
      | _ \<Rightarrow> firstEvalError_list env ctx kids)"
| "firstEvalError_list env ctx [] = None"
| "firstEvalError_list env ctx (k # ks) =
     (case firstEvalError env ctx k of
        Some err \<Rightarrow> Some err
      | None \<Rightarrow> firstEvalError_list env ctx ks)"

text \<open>
  The canonical constant node of a value, in the words of the spec: "null maps to the
  canonical null-of-type node; boolean true/false map to process-wide singleton
  true/false nodes; everything else constructs a generic typed constant node".
\<close>

definition canonicalConst :: "Datum \<Rightarrow> T \<Rightarrow> expr" where
  "canonicalConst d t =
     (case d of
        DNull \<Rightarrow> Expr (NullNode t) []
      | DBool b \<Rightarrow> (if b then TrueSingleton else FalseSingleton)
      | _ \<Rightarrow> Expr (ConstNode d t) [])"


text \<open>An expression all of whose nodes are scalar.\<close>

fun scalarTree :: "expr \<Rightarrow> bool" where
  "scalarTree (Expr n kids) = (\<not> IsRelOp (NodeOp n) \<and> (\<forall>k \<in> set kids. scalarTree k))"

text \<open>The factory after interning the given nodes, in order.\<close>

definition interned :: "expr list \<Rightarrow> Factory \<Rightarrow> Factory" where
  "interned es f = f\<lparr>mem := fold Memoize es (mem f)\<rparr>"

section \<open>Lemmas\<close>

subsection \<open>What construction preserves\<close>

lemma preserved_refl: "preserved f f"
  by (simp add: preserved_def)

lemma preserved_trans: "preserved f g \<Longrightarrow> preserved g h \<Longrightarrow> preserved f h"
  unfolding preserved_def by (intro conjI; (elim conjE)?; (simp; fail | (erule (1) order_trans) | blast))

lemma preserved_depth: "preserved f (f\<lparr>constructorStackDepth := d\<rparr>)"
  by (simp add: preserved_def)

lemma preserved_trace: "preserved f (f\<lparr>trace := t\<rparr>)"
  by (simp add: preserved_def)

lemma preserved_Memoize: "preserved f (f\<lparr>mem := Memoize e (mem f)\<rparr>)"
  by (auto simp add: preserved_def Memoize_def)

lemma preserved_notifyApplied: "preserved f (notifyApplied name x f)"
  by (simp add: notifyApplied_def preserved_def split: option.splits)

lemma preserved_ConstructEmptyValues: "preserved f (snd (ConstructEmptyValues cols f))"
  by (auto simp add: ConstructEmptyValues_def NextUniqueID_def preserved_def Memoize_def Let_def)

lemma preserved_onConstructRelational: "preserved f (snd (onConstructRelational env rel f))"
proof -
  have "preserved f (notifyApplied SimplifyZeroCardinalityGroup x f1)"
    if "ConstructEmptyValues cols f = (v, f1)" for x cols v f1
    using preserved_trans [OF preserved_ConstructEmptyValues [of f cols] preserved_notifyApplied] that
    by simp
  then show ?thesis
    by (simp add: onConstructRelational_def Let_def preserved_refl split: prod.splits)
qed

lemma depth_onConstructRelational:
  "constructorStackDepth (snd (onConstructRelational env rel f)) = constructorStackDepth f"
  by (simp add: onConstructRelational_def Let_def ConstructEmptyValues_def notifyApplied_def NextUniqueID_def
      split: prod.splits option.splits)

lemma internAndFinish_Returned: "\<exists>x. fst (internAndFinish env e f) = Returned x"
  by (simp add: internAndFinish_def Let_def split: prod.splits)

subsection \<open>Unfolding the construction protocol\<close>

lemma internAndFinish_rel:
  "IsRelExpr e \<Longrightarrow> onConstructRelational env e (f\<lparr>mem := Memoize e (mem f)\<rparr>) = (x, f2) \<Longrightarrow>
     internAndFinish env e f = (Returned x, f2\<lparr>constructorStackDepth := constructorStackDepth f2 - 1\<rparr>)"
  by (simp add: internAndFinish_def Let_def)

lemma internAndFinish_scalar:
  "\<not> IsRelExpr e \<Longrightarrow> internAndFinish env e f =
     (Returned e, f\<lparr>mem := Memoize e (mem f), constructorStackDepth := constructorStackDepth f - 1\<rparr>)"
  by (simp add: internAndFinish_def onConstructScalar_def Let_def)

lemma preserved_internAndFinish: "preserved f (snd (internAndFinish env e f))"
proof (cases "IsRelExpr e")
  case True
  let ?f1 = "f\<lparr>mem := Memoize e (mem f)\<rparr>"
  obtain x f2 where h: "onConstructRelational env e ?f1 = (x, f2)"
    by (cases "onConstructRelational env e ?f1")
  have a: "preserved f ?f1" by (rule preserved_Memoize)
  have b: "preserved ?f1 f2"
    using preserved_onConstructRelational [of ?f1 env e] h by simp
  have c: "preserved f2 (f2\<lparr>constructorStackDepth := constructorStackDepth f2 - 1\<rparr>)"
    by (rule preserved_depth)
  have "preserved f (f2\<lparr>constructorStackDepth := constructorStackDepth f2 - 1\<rparr>)"
    by (rule preserved_trans [OF preserved_trans [OF a b] c])
  then show ?thesis by (simp add: internAndFinish_rel [OF True h])
next
  case False
  have "preserved f (f\<lparr>mem := Memoize e (mem f), constructorStackDepth := constructorStackDepth f - 1\<rparr>)"
    using preserved_trans [OF preserved_Memoize preserved_depth] by simp
  then show ?thesis by (simp add: internAndFinish_scalar [OF False])
qed

lemma depth_internAndFinish:
  "constructorStackDepth (snd (internAndFinish env e f)) = constructorStackDepth f - 1"
proof (cases "IsRelExpr e")
  case True
  let ?f1 = "f\<lparr>mem := Memoize e (mem f)\<rparr>"
  obtain x f2 where h: "onConstructRelational env e ?f1 = (x, f2)"
    by (cases "onConstructRelational env e ?f1")
  have "constructorStackDepth f2 = constructorStackDepth f"
    using depth_onConstructRelational [of env e ?f1] h by simp
  then show ?thesis by (simp add: internAndFinish_rel [OF True h])
next
  case False
  then show ?thesis by (simp add: internAndFinish_scalar)
qed

lemma preserved_onMax: "preserved f (snd (onMaxConstructorStackDepthExceeded env f))"
  by (simp add: onMaxConstructorStackDepthExceeded_def SendReport_def Let_def preserved_def)

lemma depth_onMax:
  "constructorStackDepth (snd (onMaxConstructorStackDepthExceeded env f)) = constructorStackDepth f"
  by (simp add: onMaxConstructorStackDepthExceeded_def SendReport_def Let_def)

lemma construct_guard:
  assumes "maxConstructorStackDepth \<le> constructorStackDepth f"
  shows "construct env e f =
          (case onMaxConstructorStackDepthExceeded env (f\<lparr>constructorStackDepth := constructorStackDepth f + 1\<rparr>) of
             (Panicked p, f2) \<Rightarrow> (Panicked p, f2)
           | (Returned u, f2) \<Rightarrow> internAndFinish env e f2)"
  using assms by (subst construct.simps) (simp add: Let_def)

lemma findRule_depth:
  "findRule (f\<lparr>constructorStackDepth := d\<rparr>) rs e = findRule f rs e"
  by (induction rs) (auto simp: ruleAllowed_def split: option.splits)

lemma construct_norule:
  assumes "constructorStackDepth f < maxConstructorStackDepth"
      and "findRule f (rules env) e = None"
  shows "construct env e f = internAndFinish env e (f\<lparr>constructorStackDepth := constructorStackDepth f + 1\<rparr>)"
  using assms by (subst construct.simps) (simp add: Let_def findRule_depth)

lemma construct_rule:
  assumes "constructorStackDepth f < maxConstructorStackDepth"
      and "findRule f (rules env) e = Some (r, e')"
  shows "construct env e f =
           (case construct env e' (f\<lparr>constructorStackDepth := constructorStackDepth f + 1\<rparr>) of
                (Panicked p, f2) \<Rightarrow> (Panicked p, f2)
              | (Returned x, f2) \<Rightarrow>
                  (Returned x, (notifyApplied (ruleName r) x f2)
                      \<lparr>constructorStackDepth := constructorStackDepth (notifyApplied (ruleName r) x f2) - 1\<rparr>))"
  using assms
  by (subst construct.simps) (simp add: Let_def findRule_depth split: prod.splits outcome.splits)

lemma construct_frame:
  "construct env e f = (r, f') \<Longrightarrow>
     preserved f f' \<and> (\<forall>x. r = Returned x \<longrightarrow> constructorStackDepth f' = constructorStackDepth f)"
proof (induction env e f arbitrary: r f' rule: construct.induct)
  case (1 env e f)
  let ?f1 = "f\<lparr>constructorStackDepth := constructorStackDepth f + 1\<rparr>"
  have p1: "preserved f ?f1" by (rule preserved_depth)
  show ?case
  proof (cases "maxConstructorStackDepth \<le> constructorStackDepth f")
    case True
    obtain o2 f2 where om: "onMaxConstructorStackDepthExceeded env ?f1 = (o2, f2)"
      by (cases "onMaxConstructorStackDepthExceeded env ?f1")
    have p2: "preserved ?f1 f2" and d2: "constructorStackDepth f2 = constructorStackDepth ?f1"
      using preserved_onMax [of ?f1 env] depth_onMax [of env ?f1] om by simp_all
    have p02: "preserved f f2" by (rule preserved_trans [OF p1 p2])
    show ?thesis
    proof (cases o2)
      case (Panicked p)
      with om "1.prems" have "f' = f2" "r = Panicked p"
        by (simp_all add: construct_guard [OF True])
      then show ?thesis using p02 by simp
    next
      case (Returned u)
      with om "1.prems" have eq: "internAndFinish env e f2 = (r, f')"
        by (simp add: construct_guard [OF True])
      have "preserved f2 f'" using preserved_internAndFinish [of f2 env e] eq by simp
      then have "preserved f f'" by (rule preserved_trans [OF p02])
      moreover have "constructorStackDepth f' = constructorStackDepth f"
        using depth_internAndFinish [of env e f2] eq d2 by simp
      ultimately show ?thesis by blast
    qed
  next
    case False
    then have lt: "constructorStackDepth f < maxConstructorStackDepth" by simp
    show ?thesis
    proof (cases "findRule f (rules env) e")
      case None
      with "1.prems" have eq: "internAndFinish env e ?f1 = (r, f')"
        by (simp add: construct_norule [OF lt])
      have "preserved ?f1 f'" using preserved_internAndFinish [of ?f1 env e] eq by simp
      then have "preserved f f'" by (rule preserved_trans [OF p1])
      moreover have "constructorStackDepth f' = constructorStackDepth f"
        using depth_internAndFinish [of env e ?f1] eq by simp
      ultimately show ?thesis by blast
    next
      case (Some a)
      then obtain rl e' where fr: "findRule f (rules env) e = Some (rl, e')"
        by (cases a) auto
      then have fr1: "findRule ?f1 (rules env) e = Some (rl, e')"
        by (simp add: findRule_depth)
      have nlt: "\<not> maxConstructorStackDepth < constructorStackDepth ?f1"
        using lt by simp
      obtain o2 f2 where c2: "construct env e' ?f1 = (o2, f2)"
        by (cases "construct env e' ?f1")
      have ih: "preserved ?f1 f2 \<and> (\<forall>x. o2 = Returned x \<longrightarrow> constructorStackDepth f2 = constructorStackDepth ?f1)"
        by (rule "1.IH" [OF refl nlt fr1 refl c2])
      then have p02: "preserved f f2" using preserved_trans [OF p1] by blast
      show ?thesis
      proof (cases o2)
        case (Panicked p)
        with c2 "1.prems" have "f' = f2" "r = Panicked p"
          by (simp_all add: construct_rule [OF lt fr])
        then show ?thesis using p02 by simp
      next
        case (Returned x)
        let ?f3 = "notifyApplied (ruleName rl) x f2"
        from Returned c2 "1.prems"
        have eq: "r = Returned x" "f' = ?f3\<lparr>constructorStackDepth := constructorStackDepth ?f3 - 1\<rparr>"
          by (simp_all add: construct_rule [OF lt fr])
        have "preserved f2 f'"
          unfolding eq by (rule preserved_trans [OF preserved_notifyApplied preserved_depth])
        then have "preserved f f'" by (rule preserved_trans [OF p02])
        moreover have "constructorStackDepth f' = constructorStackDepth f"
          using ih Returned unfolding eq by (simp add: notifyApplied_def split: option.splits)
        ultimately show ?thesis by blast
      qed
    qed
  qed
qed

subsection \<open>Computations that construct nodes\<close>

lemma constructsI:
  "(\<And>f r f'. m f = (r, f') \<Longrightarrow> preserved f f' \<and> (\<forall>x. r = Returned x \<longrightarrow> constructorStackDepth f' = constructorStackDepth f))
     \<Longrightarrow> constructs m"
  unfolding constructs_def by blast

lemma constructsD:
  "constructs m \<Longrightarrow> m f = (r, f') \<Longrightarrow> preserved f f'"
  "constructs m \<Longrightarrow> m f = (Returned x, f') \<Longrightarrow> constructorStackDepth f' = constructorStackDepth f"
  unfolding constructs_def by blast+

lemma constructs_returnM: "constructs (returnM x)"
  by (rule constructsI) (auto simp: returnM_def preserved_refl)

lemma constructs_panic: "constructs (panic p)"
  by (rule constructsI) (auto simp: panic_def preserved_refl)

lemma andThen_Returned:
  "m f = (Returned x, f1) \<Longrightarrow> andThen m k f = k x f1"
  by (simp add: andThen_def)

lemma andThen_Panicked:
  "m f = (Panicked p, f1) \<Longrightarrow> andThen m k f = (Panicked p, f1)"
  by (simp add: andThen_def)

lemma andThen_cases:
  assumes "andThen m k f = (r, f')"
  obtains (panicked) p where "m f = (Panicked p, f')" "r = Panicked p"
        | (returned) x f1 where "m f = (Returned x, f1)" "k x f1 = (r, f')"
proof (cases "m f")
  case (Pair o1 f1)
  show ?thesis
  proof (cases o1)
    case (Returned x)
    with Pair assms have "k x f1 = (r, f')" by (simp add: andThen_def)
    with Pair Returned show ?thesis using returned by blast
  next
    case (Panicked p)
    with Pair assms have "f' = f1" "r = Panicked p" by (simp_all add: andThen_def)
    with Pair Panicked show ?thesis using panicked by blast
  qed
qed

lemma constructs_andThen:
  assumes "constructs m" and "\<And>x. constructs (k x)"
  shows "constructs (andThen m k)"
proof (rule constructsI)
  fix f r f' assume h: "andThen m k f = (r, f')"
  from h show "preserved f f' \<and> (\<forall>x. r = Returned x \<longrightarrow> constructorStackDepth f' = constructorStackDepth f)"
  proof (cases rule: andThen_cases)
    case (panicked p)
    then show ?thesis using constructsD(1) [OF assms(1)] by simp
  next
    case (returned x f1)
    have a: "preserved f f1" and d: "constructorStackDepth f1 = constructorStackDepth f"
      using constructsD [OF assms(1)] returned(1) by blast+
    have b: "preserved f1 f'" using constructsD(1) [OF assms(2)] returned(2) by blast
    have c: "\<forall>y. r = Returned y \<longrightarrow> constructorStackDepth f' = constructorStackDepth f1"
      using constructsD(2) [OF assms(2)] returned(2) by blast
    show ?thesis using preserved_trans [OF a b] c d by simp
  qed
qed

lemma constructs_construct: "constructs (construct env e)"
  by (rule constructsI) (rule construct_frame)

lemma constructs_mapM:
  assumes "\<And>x. x \<in> set xs \<Longrightarrow> constructs (g x)"
  shows "constructs (mapM g xs)"
  using assms
proof (induction xs)
  case Nil
  show ?case by (simp add: constructs_returnM)
next
  case (Cons a xs)
  show ?case
    by (simp, intro constructs_andThen constructs_returnM Cons.IH) (simp_all add: Cons.prems)
qed

lemma constructs_ConstructConstVal: "constructs (ConstructConstVal env d t)"
  by (cases d)
     (simp_all add: ConstructConstVal_def ConstructNull_def ConstructConst_def
        constructs_construct constructs_returnM)

lemma quiet_step:
  "quiet env f \<Longrightarrow> preserved f f' \<Longrightarrow> constructorStackDepth f' = constructorStackDepth f \<Longrightarrow> quiet env f'"
proof -
  assume q: "quiet env f" and p: "preserved f f'" and d: "constructorStackDepth f' = constructorStackDepth f"
  have m: "matchedRule f' = matchedRule f" using p by (simp add: preserved_def)
  have "findRule f' rs e = findRule f rs e" for rs e
    by (induction rs) (auto simp: ruleAllowed_def m split: option.splits)
  then show ?thesis using q d by (simp add: quiet_def noRuleFires_def)
qed

lemma safe_step:
  "safe env f \<Longrightarrow> preserved f f' \<Longrightarrow> constructorStackDepth f' = constructorStackDepth f \<Longrightarrow> safe env f'"
  unfolding safe_def by (erule disjE) (simp, rule disjI2, erule (2) quiet_step)

lemma constructs_quiet:
  "constructs m \<Longrightarrow> m f = (Returned x, f') \<Longrightarrow> quiet env f \<Longrightarrow> quiet env f'"
  by (rule quiet_step [where f = f]) (simp_all add: constructsD)

lemma constructs_safe:
  "constructs m \<Longrightarrow> m f = (Returned x, f') \<Longrightarrow> safe env f \<Longrightarrow> safe env f'"
  by (rule safe_step [where f = f]) (simp_all add: constructsD)

subsection \<open>Constructors return; rules keep kinds\<close>

lemma construct_quiet_scalar:
  assumes "quiet env f" and "\<not> IsRelExpr e"
  shows "construct env e f = (Returned e, f\<lparr>mem := Memoize e (mem f)\<rparr>)"
proof -
  have lt: "constructorStackDepth f < maxConstructorStackDepth"
    and nr: "findRule f (rules env) e = None"
    using assms(1) by (simp_all add: quiet_def noRuleFires_def)
  show ?thesis
    by (simp add: construct_norule [OF lt nr] internAndFinish_scalar [OF assms(2)])
qed

lemma onMax_production:
  "\<not> CrdbTestBuild env \<Longrightarrow> \<exists>f'. onMaxConstructorStackDepthExceeded env f = (Returned (), f')"
  by (simp add: onMaxConstructorStackDepthExceeded_def Let_def)

lemma internAndFinish_returns: "\<exists>x f'. internAndFinish env e f = (Returned x, f')"
  by (simp add: internAndFinish_def Let_def split: prod.splits)

lemma construct_returns:
  "safe env f \<Longrightarrow> \<exists>x f'. construct env e f = (Returned x, f')"
proof (induction env e f rule: construct.induct)
  case (1 env e f)
  let ?f1 = "f\<lparr>constructorStackDepth := constructorStackDepth f + 1\<rparr>"
  show ?case
  proof (cases "maxConstructorStackDepth \<le> constructorStackDepth f")
    case True
    with "1.prems" have "\<not> CrdbTestBuild env" by (auto simp: safe_def quiet_def)
    then obtain f2 where "onMaxConstructorStackDepthExceeded env ?f1 = (Returned (), f2)"
      using onMax_production by blast
    then show ?thesis
      using internAndFinish_returns [of env e f2] by (simp add: construct_guard [OF True])
  next
    case False
    then have lt: "constructorStackDepth f < maxConstructorStackDepth" by simp
    show ?thesis
    proof (cases "findRule f (rules env) e")
      case None
      then show ?thesis
        using internAndFinish_returns [of env e ?f1] by (simp add: construct_norule [OF lt])
    next
      case (Some a)
      then obtain rl e' where fr: "findRule f (rules env) e = Some (rl, e')"
        by (cases a) auto
      then have fr1: "findRule ?f1 (rules env) e = Some (rl, e')"
        by (simp add: findRule_depth)
      have nlt: "\<not> maxConstructorStackDepth < constructorStackDepth ?f1"
        using lt by simp
      have "\<not> quiet env f" using fr by (auto simp: quiet_def noRuleFires_def)
      with "1.prems" have "\<not> CrdbTestBuild env" by (simp add: safe_def)
      then have "safe env ?f1" by (simp add: safe_def)
      then obtain x f2 where "construct env e' ?f1 = (Returned x, f2)"
        using "1.IH" [OF refl nlt fr1 refl] by blast
      then show ?thesis by (simp add: construct_rule [OF lt fr])
    qed
  qed
qed

lemma findRule_Some:
  "findRule f rs e = Some (r, e') \<Longrightarrow> r \<in> set rs \<and> rewrite r e = Some e'"
  by (induction rs) (auto split: option.splits if_splits)

lemma kind_onConstructRelational:
  "IsRelExpr rel \<Longrightarrow> IsRelExpr (fst (onConstructRelational env rel f))"
  by (simp add: onConstructRelational_def Let_def ConstructEmptyValues_def IsRelExpr_def
      split: prod.splits)

lemma kind_internAndFinish:
  "internAndFinish env e f = (Returned x, f') \<Longrightarrow> IsRelExpr x = IsRelExpr e"
proof (cases "IsRelExpr e")
  case True
  assume h: "internAndFinish env e f = (Returned x, f')"
  obtain y f2 where o: "onConstructRelational env e (f\<lparr>mem := Memoize e (mem f)\<rparr>) = (y, f2)"
    by (cases "onConstructRelational env e (f\<lparr>mem := Memoize e (mem f)\<rparr>)")
  have "IsRelExpr y" using kind_onConstructRelational [OF True, of env "f\<lparr>mem := Memoize e (mem f)\<rparr>"] o by simp
  then show ?thesis using h True by (simp add: internAndFinish_rel [OF True o])
next
  case False
  assume h: "internAndFinish env e f = (Returned x, f')"
  then show ?thesis using False by (simp add: internAndFinish_scalar)
qed

lemma construct_keeps_kind:
  "rulesKeepKind env \<Longrightarrow> construct env e f = (Returned x, f') \<Longrightarrow> IsRelExpr x = IsRelExpr e"
proof (induction env e f arbitrary: x f' rule: construct.induct)
  case (1 env e f)
  let ?f1 = "f\<lparr>constructorStackDepth := constructorStackDepth f + 1\<rparr>"
  show ?case
  proof (cases "maxConstructorStackDepth \<le> constructorStackDepth f")
    case True
    obtain o2 f2 where om: "onMaxConstructorStackDepthExceeded env ?f1 = (o2, f2)"
      by (cases "onMaxConstructorStackDepthExceeded env ?f1")
    show ?thesis
    proof (cases o2)
      case (Panicked p)
      with om "1.prems"(2) show ?thesis by (simp add: construct_guard [OF True])
    next
      case (Returned u)
      with om "1.prems"(2) have "internAndFinish env e f2 = (Returned x, f')"
        by (simp add: construct_guard [OF True])
      then show ?thesis by (rule kind_internAndFinish)
    qed
  next
    case False
    then have lt: "constructorStackDepth f < maxConstructorStackDepth" by simp
    show ?thesis
    proof (cases "findRule f (rules env) e")
      case None
      with "1.prems"(2) have "internAndFinish env e ?f1 = (Returned x, f')"
        by (simp add: construct_norule [OF lt])
      then show ?thesis by (rule kind_internAndFinish)
    next
      case (Some a)
      then obtain rl e' where fr: "findRule f (rules env) e = Some (rl, e')"
        by (cases a) auto
      then have fr1: "findRule ?f1 (rules env) e = Some (rl, e')"
        by (simp add: findRule_depth)
      have nlt: "\<not> maxConstructorStackDepth < constructorStackDepth ?f1"
        using lt by simp
      have k: "IsRelExpr e' = IsRelExpr e"
        using findRule_Some [OF fr] "1.prems"(1) unfolding rulesKeepKind_def by blast
      obtain o2 f2 where c2: "construct env e' ?f1 = (o2, f2)"
        by (cases "construct env e' ?f1")
      show ?thesis
      proof (cases o2)
        case (Panicked p)
        with c2 "1.prems"(2) show ?thesis by (simp add: construct_rule [OF lt fr])
      next
        case (Returned y)
        with c2 "1.prems"(2) have "y = x" by (simp add: construct_rule [OF lt fr])
        with c2 Returned have "construct env e' ?f1 = (Returned x, f2)" by simp
        then have "IsRelExpr x = IsRelExpr e'"
          by (rule "1.IH" [OF refl nlt fr1 refl "1.prems"(1)])
        then show ?thesis using k by simp
      qed
    qed
  qed
qed

subsection \<open>The substitution callbacks\<close>

lemma replaceFn_list_mapM: "replaceFn_list env es = mapM (replaceFn env) es"
  by (induction es) simp_all

lemma replaceFn_placeholder:
  "replaceFn env (Expr (PlaceholderNode v t) kids) f =
     (case evalExpr env (evalCtx f) v of
        Inl err \<Rightarrow> (Panicked (ErrorValue err), f)
      | Inr d \<Rightarrow> ConstructConstVal env d t f)"
  by (simp add: panic_def split: sum.splits)

lemma replaceFn_other:
  assumes "\<And>v t. n \<noteq> PlaceholderNode v t"
  shows "replaceFn env (Expr n kids) = andThen (replaceFn_list env kids) (\<lambda>kids'. construct env (Expr n kids'))"
  using assms by (cases n) auto

lemma replaceFn_default:
  assumes "\<And>v t. n \<noteq> PlaceholderNode v t"
  shows "replaceFn env (Expr n kids) = CopyAndReplaceDefault env (Expr n kids) (replaceFn env)"
  by (simp only: replaceFn_other [OF assms] CopyAndReplaceDefault_def invokeReplace_def
        replaceFn_list_mapM expr.case)

declare replaceFn.simps [simp del]
declare CopyWithoutAssigningPlaceholders.simps [simp del]

lemma constructs_replaceFn: "constructs (replaceFn env e)"
proof (induction e)
  case (Expr n kids)
  show ?case
  proof (cases "\<exists>v t. n = PlaceholderNode v t")
    case True
    then obtain v t where n: "n = PlaceholderNode v t" by blast
    show ?thesis
    proof (rule constructsI)
      fix f r f' assume h: "replaceFn env (Expr n kids) f = (r, f')"
      show "preserved f f' \<and> (\<forall>x. r = Returned x \<longrightarrow> constructorStackDepth f' = constructorStackDepth f)"
      proof (cases "evalExpr env (evalCtx f) v")
        case (Inl err)
        with h n show ?thesis by (auto simp add: replaceFn_placeholder preserved_refl)
      next
        case (Inr d)
        with h n have "ConstructConstVal env d t f = (r, f')" by (simp add: replaceFn_placeholder)
        then show ?thesis using constructs_ConstructConstVal [of env d t]
          unfolding constructs_def by blast
      qed
    qed
  next
    case False
    then have np: "\<And>v t. n \<noteq> PlaceholderNode v t" by blast
    have eq: "replaceFn env (Expr n kids) =
        andThen (mapM (replaceFn env) kids) (\<lambda>kids'. construct env (Expr n kids'))"
      unfolding replaceFn_other [OF np] replaceFn_list_mapM ..
    show ?thesis
      unfolding eq
      by (intro constructs_andThen constructs_mapM constructs_construct) (rule Expr.IH)
  qed
qed

lemma constructs_replaceFn_list: "constructs (replaceFn_list env es)"
  unfolding replaceFn_list_mapM by (rule constructs_mapM) (rule constructs_replaceFn)

lemma CopyWithout_list_mapM:
  "CopyWithoutAssigningPlaceholders_list env es = mapM (CopyWithoutAssigningPlaceholders env) es"
  by (induction es) (simp_all add: CopyWithoutAssigningPlaceholders.simps)

lemma CopyWithout_default:
  "CopyWithoutAssigningPlaceholders env e
     = CopyAndReplaceDefault env e (CopyWithoutAssigningPlaceholders env)"
  by (cases e) (simp add: CopyAndReplaceDefault_def invokeReplace_def CopyWithout_list_mapM
        CopyWithoutAssigningPlaceholders.simps)

lemma constructs_CopyWithout: "constructs (CopyWithoutAssigningPlaceholders env e)"
proof (induction e)
  case (Expr n kids)
  have eq: "CopyWithoutAssigningPlaceholders env (Expr n kids) =
        andThen (mapM (CopyWithoutAssigningPlaceholders env) kids) (\<lambda>kids'. construct env (Expr n kids'))"
    by (simp add: CopyWithout_list_mapM CopyWithoutAssigningPlaceholders.simps)
  show ?case
    unfolding eq
    by (intro constructs_andThen constructs_mapM constructs_construct) (rule Expr.IH)
qed

lemma mapM_returns:
  assumes "\<And>x f. x \<in> set xs \<Longrightarrow> safe env f \<Longrightarrow> \<exists>y f'. g x f = (Returned y, f')"
      and "\<And>x. x \<in> set xs \<Longrightarrow> constructs (g x)"
      and "safe env f"
  shows "\<exists>ys f'. mapM g xs f = (Returned ys, f')"
  using assms
proof (induction xs arbitrary: f)
  case Nil
  show ?case by (simp add: returnM_def)
next
  case (Cons a xs)
  obtain y f1 where a: "g a f = (Returned y, f1)"
    using Cons.prems(1) [of a f] Cons.prems(3) by auto
  have s1: "safe env f1"
    by (rule constructs_safe [OF Cons.prems(2) a Cons.prems(3)]) simp
  obtain ys f2 where b: "mapM g xs f1 = (Returned ys, f2)"
    using Cons.IH [of f1] Cons.prems(1,2) s1 by auto
  show ?case
    by (simp add: andThen_def a b returnM_def)
qed

lemma CopyWithout_returns:
  "safe env f \<Longrightarrow> \<exists>x f'. CopyWithoutAssigningPlaceholders env e f = (Returned x, f')"
proof (induction e arbitrary: f)
  case (Expr n kids)
  obtain ks f1 where a: "mapM (CopyWithoutAssigningPlaceholders env) kids f = (Returned ks, f1)"
    using mapM_returns [of kids env "CopyWithoutAssigningPlaceholders env" f]
      Expr.IH constructs_CopyWithout Expr.prems by blast
  have "safe env f1"
    by (rule constructs_safe [OF constructs_mapM a Expr.prems]) (rule constructs_CopyWithout)
  then obtain x f2 where "construct env (Expr n ks) f1 = (Returned x, f2)"
    using construct_returns by blast
  then show ?case
    by (simp add: CopyWithout_list_mapM andThen_def a CopyWithoutAssigningPlaceholders.simps)
qed

subsection \<open>Outcome of the placeholder substitution\<close>

lemma constructs_evalCtx:
  "constructs m \<Longrightarrow> m f = (r, f') \<Longrightarrow> evalCtx f' = evalCtx f"
  using constructsD(1) [of m f r f'] by (simp add: preserved_def)

lemma ConstructConstVal_returns:
  "safe env f \<Longrightarrow> \<exists>x f'. ConstructConstVal env d t f = (Returned x, f')"
  using construct_returns [of env f]
  by (cases d) (simp_all add: ConstructConstVal_def ConstructNull_def ConstructConst_def returnM_def)

lemma replaceFn_list_succeeds:
  assumes "\<And>k f. k \<in> set ks \<Longrightarrow> firstEvalError env (evalCtx f) k = None \<Longrightarrow> safe env f
             \<Longrightarrow> \<exists>x f'. replaceFn env k f = (Returned x, f')"
      and "firstEvalError_list env (evalCtx f) ks = None" and "safe env f"
  shows "\<exists>xs f'. mapM (replaceFn env) ks f = (Returned xs, f')"
  using assms
proof (induction ks arbitrary: f)
  case Nil
  show ?case by (simp add: returnM_def)
next
  case (Cons k ks)
  from Cons.prems(2) have k: "firstEvalError env (evalCtx f) k = None"
    and r: "firstEvalError_list env (evalCtx f) ks = None"
    by (simp_all split: option.splits)
  obtain y f1 where a: "replaceFn env k f = (Returned y, f1)"
    using Cons.prems(1) [of k f] k Cons.prems(3) by auto
  have s1: "safe env f1" by (rule constructs_safe [OF constructs_replaceFn a Cons.prems(3)])
  have c1: "evalCtx f1 = evalCtx f" by (rule constructs_evalCtx [OF constructs_replaceFn a])
  obtain ys f2 where b: "mapM (replaceFn env) ks f1 = (Returned ys, f2)"
    using Cons.IH [of f1] Cons.prems(1) r s1 c1 by auto
  show ?case by (simp add: andThen_def a b returnM_def)
qed

lemma replaceFn_succeeds:
  "firstEvalError env (evalCtx f) e = None \<Longrightarrow> safe env f
     \<Longrightarrow> \<exists>x f'. replaceFn env e f = (Returned x, f')"
proof (induction e arbitrary: f)
  case (Expr n kids)
  show ?case
  proof (cases "\<exists>v t. n = PlaceholderNode v t")
    case True
    then obtain v t where n: "n = PlaceholderNode v t" by blast
    with Expr.prems(1) obtain d where "evalExpr env (evalCtx f) v = Inr d"
      by (cases "evalExpr env (evalCtx f) v") auto
    then show ?thesis
      using ConstructConstVal_returns [OF Expr.prems(2), of d t] n
      by (simp add: replaceFn_placeholder)
  next
    case False
    then have np: "\<And>v t. n \<noteq> PlaceholderNode v t" by blast
    then have fe: "firstEvalError_list env (evalCtx f) kids = None"
      using Expr.prems(1) by (cases n) auto
    obtain ks f1 where a: "mapM (replaceFn env) kids f = (Returned ks, f1)"
      using replaceFn_list_succeeds [of kids env f] Expr.IH fe Expr.prems(2) by blast
    have "safe env f1"
      by (rule constructs_safe [OF constructs_mapM a Expr.prems(2)]) (rule constructs_replaceFn)
    then obtain x f2 where "construct env (Expr n ks) f1 = (Returned x, f2)"
      using construct_returns by blast
    then show ?thesis
      by (simp add: replaceFn_other [OF np] replaceFn_list_mapM andThen_def a)
  qed
qed



subsection \<open>Copying the metadata\<close>

lemma constructs_copyTables:
  assumes "\<And>e. constructs (fn e)"
  shows "constructs (copyTables fn tabs)"
proof (induction tabs)
  case Nil
  show ?case by (simp add: constructs_returnM)
next
  case (Cons a tabs)
  obtain tid tm where a: "a = (tid, tm)" by (cases a)
  show ?case
    unfolding a copyTables.simps
    by (intro constructs_andThen constructs_mapM constructs_returnM Cons.IH assms)
qed

lemma copyTables_ids:
  "copyTables fn tabs f = (Returned ts, f') \<Longrightarrow>
     map fst ts = map fst tabs \<and> map (\<lambda>t. tabName (snd t)) ts = map (\<lambda>t. tabName (snd t)) tabs"
proof (induction tabs arbitrary: f ts f')
  case Nil
  then show ?case by (simp add: returnM_def)
next
  case (Cons a tabs)
  obtain tid tm where a: "a = (tid, tm)" by (cases a)
  from Cons.prems
  have h: "andThen (mapM fn (tabExprs tm)) (\<lambda>es.
             andThen (copyTables fn tabs) (\<lambda>ts. returnM ((tid, tm\<lparr>tabExprs := es\<rparr>) # ts))) f
           = (Returned ts, f')"
    by (simp add: a)
  from h show ?case
  proof (cases rule: andThen_cases)
    case (panicked p)
    then show ?thesis by simp
  next
    case (returned es f1)
    from returned(2) show ?thesis
    proof (cases rule: andThen_cases)
      case (panicked p)
      then show ?thesis by simp
    next
      case (returned ts' f2)
      then have "ts = (tid, tm\<lparr>tabExprs := es\<rparr>) # ts'" by (simp add: returnM_def)
      then show ?thesis using Cons.IH [OF returned(1)] a by simp
    qed
  qed
qed

lemma copyTables_returns:
  assumes "\<And>e f. safe env f \<Longrightarrow> \<exists>x f'. fn e f = (Returned x, f')"
      and "\<And>e. constructs (fn e)" and "safe env f"
  shows "\<exists>ts f'. copyTables fn tabs f = (Returned ts, f')"
  using assms(3)
proof (induction tabs arbitrary: f)
  case Nil
  show ?case by (simp add: returnM_def)
next
  case (Cons a tabs)
  obtain tid tm where a: "a = (tid, tm)" by (cases a)
  obtain es f1 where m: "mapM fn (tabExprs tm) f = (Returned es, f1)"
    using mapM_returns [of "tabExprs tm" env fn f] assms(1,2) Cons.prems by blast
  have s1: "safe env f1"
    by (rule constructs_safe [OF constructs_mapM m Cons.prems]) (rule assms(2))
  obtain ts f2 where c: "copyTables fn tabs f1 = (Returned ts, f2)"
    using Cons.IH [OF s1] by blast
  show ?case by (simp add: a andThen_def m c returnM_def)
qed

lemma safe_setMetadata: "safe env (setMetadata md f) = safe env f"
proof -
  have "findRule (setMetadata md f) rs e = findRule f rs e" for rs e
    by (induction rs) (auto simp: ruleAllowed_def setMetadata_def split: option.splits)
  then show ?thesis
    by (simp add: safe_def quiet_def noRuleFires_def setMetadata_def)
qed

lemma Metadata_CopyFrom_cases:
  assumes "Metadata_CopyFrom src fn f = (r, f2)"
  obtains (panicked) p where
      "copyTables fn (mdTables src)
         (setMetadata \<lparr>mdCols = mdCols src, mdTables = [], currUniqueID = currUniqueID src\<rparr> f)
       = (Panicked p, f2)" "r = Panicked p"
  | (returned) ts f1 where
      "copyTables fn (mdTables src)
         (setMetadata \<lparr>mdCols = mdCols src, mdTables = [], currUniqueID = currUniqueID src\<rparr> f)
       = (Returned ts, f1)"
      "r = Returned ()" "f2 = setMetadata ((metadata (mem f1))\<lparr>mdTables := ts\<rparr>) f1"
proof -
  let ?f0 = "setMetadata \<lparr>mdCols = mdCols src, mdTables = [], currUniqueID = currUniqueID src\<rparr> f"
  from assms have h: "andThen (copyTables fn (mdTables src))
           (\<lambda>ts f'. (Returned (), setMetadata ((metadata (mem f'))\<lparr>mdTables := ts\<rparr>) f')) ?f0 = (r, f2)"
    by (simp add: Metadata_CopyFrom_def Let_def)
  from h show ?thesis
  proof (cases rule: andThen_cases)
    case (panicked p)
    then show ?thesis using that(1) by blast
  next
    case (returned ts f1)
    then show ?thesis using that(2) [of ts f1] by auto
  qed
qed

lemma Metadata_CopyFrom_frame:
  assumes "Metadata_CopyFrom src fn f = (r, f2)" and "\<And>e. constructs (fn e)"
  shows "evalCtx f2 = evalCtx f \<and> matchedRule f2 = matchedRule f \<and> appliedRule f2 = appliedRule f
       \<and> curRank (mem f) \<le> curRank (mem f2)
       \<and> rootExpr (mem f2) = rootExpr (mem f) \<and> rootProps (mem f2) = rootProps (mem f)
       \<and> (r = Returned () \<longrightarrow> constructorStackDepth f2 = constructorStackDepth f)"
proof -
  let ?f0 = "setMetadata \<lparr>mdCols = mdCols src, mdTables = [], currUniqueID = currUniqueID src\<rparr> f"
  note ct = constructs_copyTables [of fn "mdTables src", OF assms(2)]
  from assms(1) show ?thesis
  proof (cases rule: Metadata_CopyFrom_cases)
    case (panicked p)
    have "preserved ?f0 f2" by (rule constructsD(1) [OF ct panicked(1)])
    then show ?thesis using panicked(2) by (simp add: preserved_def setMetadata_def)
  next
    case (returned ts f1)
    have "preserved ?f0 f1" by (rule constructsD(1) [OF ct returned(1)])
    moreover have "constructorStackDepth f1 = constructorStackDepth ?f0"
      by (rule constructsD(2) [OF ct returned(1)])
    ultimately show ?thesis using returned(2,3) by (simp add: preserved_def setMetadata_def)
  qed
qed

lemma Metadata_CopyFrom_copied:
  assumes "Metadata_CopyFrom src fn f = (Returned u, f2)" and "\<And>e. constructs (fn e)"
  shows "mdCols (metadata (mem f2)) = mdCols src
       \<and> map fst (mdTables (metadata (mem f2))) = map fst (mdTables src)
       \<and> map (\<lambda>t. tabName (snd t)) (mdTables (metadata (mem f2))) = map (\<lambda>t. tabName (snd t)) (mdTables src)
       \<and> currUniqueID src \<le> currUniqueID (metadata (mem f2))
       \<and> (\<exists>f1. copyTables fn (mdTables src)
                  (setMetadata \<lparr>mdCols = mdCols src, mdTables = [], currUniqueID = currUniqueID src\<rparr> f)
                = (Returned (mdTables (metadata (mem f2))), f1))"
proof -
  let ?f0 = "setMetadata \<lparr>mdCols = mdCols src, mdTables = [], currUniqueID = currUniqueID src\<rparr> f"
  note ct = constructs_copyTables [of fn "mdTables src", OF assms(2)]
  from assms(1) show ?thesis
  proof (cases rule: Metadata_CopyFrom_cases)
    case (panicked p)
    then show ?thesis by simp
  next
    case (returned ts f1)
    have p: "preserved ?f0 f1" by (rule constructsD(1) [OF ct returned(1)])
    have t: "mdTables (metadata (mem f2)) = ts" using returned(3) by (simp add: setMetadata_def)
    have "mdCols (metadata (mem f2)) = mdCols src"
      and "currUniqueID src \<le> currUniqueID (metadata (mem f2))"
      using p returned(3) by (simp_all add: preserved_def setMetadata_def)
    then show ?thesis using copyTables_ids [OF returned(1)] returned(1) t by auto
  qed
qed

lemma Metadata_CopyFrom_returns:
  assumes "\<And>e f. safe env f \<Longrightarrow> \<exists>x f'. fn e f = (Returned x, f')"
      and "\<And>e. constructs (fn e)" and "safe env f"
  shows "\<exists>f2. Metadata_CopyFrom src fn f = (Returned (), f2)"
proof -
  let ?f0 = "setMetadata \<lparr>mdCols = mdCols src, mdTables = [], currUniqueID = currUniqueID src\<rparr> f"
  have "safe env ?f0" using assms(3) by (simp add: safe_setMetadata)
  then obtain ts f1 where "copyTables fn (mdTables src) ?f0 = (Returned ts, f1)"
    using copyTables_returns [of env fn ?f0 "mdTables src"] assms(1,2) by blast
  then show ?thesis by (simp add: Metadata_CopyFrom_def Let_def andThen_def)
qed

subsection \<open>Copy and replace\<close>

lemma CopyAndReplace_empty:
  assumes "IsEmpty (mem f)"
  shows "CopyAndReplace env fromMemo from fromProps replace f =
     (case Metadata_CopyFrom (metadata fromMemo) (CopyWithoutAssigningPlaceholders env)
             (f\<lparr>mem := CopyNextRankFrom fromMemo (mem f)\<rparr>) of
        (Panicked p, f2) \<Rightarrow> (Panicked p, f2)
      | (Returned u, f2) \<Rightarrow>
          (case replace from f2 of
             (Panicked p, f3) \<Rightarrow> (Panicked p, f3)
           | (Returned to, f3) \<Rightarrow>
               if IsRelExpr to then (Returned (), f3\<lparr>mem := SetRoot to fromProps (mem f3)\<rparr>)
               else (Panicked (ErrorValue (RuntimeError ''interface conversion: not a memo.RelExpr'')), f3)))"
  using assms
  by (simp add: CopyAndReplace_def Let_def andThen_def invokeReplace_def panic_def
      split: prod.splits outcome.splits)

subsection \<open>Placeholder assignment\<close>

lemma safe_cong:
  assumes "matchedRule f' = matchedRule f" and "constructorStackDepth f' = constructorStackDepth f"
  shows "safe env f' = safe env f"
proof -
  have "findRule f' rs e = findRule f rs e" for rs e
    by (induction rs) (auto simp: ruleAllowed_def assms(1) split: option.splits)
  then show ?thesis
    by (simp add: safe_def quiet_def noRuleFires_def assms(2))
qed

lemma replaceFn_keeps_kind:
  assumes "rulesKeepKind env" and "IsRelExpr e" and "replaceFn env e f = (Returned x, f')"
  shows "IsRelExpr x"
proof (cases e)
  case (Expr n kids)
  have np: "\<And>v t. n \<noteq> PlaceholderNode v t"
    using assms(2) Expr by (auto simp: IsRelExpr_def)
  have h: "andThen (mapM (replaceFn env) kids) (\<lambda>kids'. construct env (Expr n kids')) f = (Returned x, f')"
    using assms(3) unfolding Expr replaceFn_other [OF np] replaceFn_list_mapM .
  from h show ?thesis
  proof (cases rule: andThen_cases)
    case (panicked p)
    then show ?thesis by simp
  next
    case (returned ks f1)
    have "IsRelExpr x = IsRelExpr (Expr n ks)"
      by (rule construct_keeps_kind [OF assms(1) returned(2)])
    then show ?thesis using assms(2) Expr by (simp add: IsRelExpr_def)
  qed
qed




subsection \<open>Constant filters\<close>

lemma andThen_returnM: "andThen (returnM x) k = k x"
  by (rule ext) (simp add: andThen_def returnM_def)

lemma andThen_assoc: "andThen (andThen m k) h = andThen m (\<lambda>x. andThen (k x) h)"
  by (rule ext) (simp add: andThen_def split: prod.splits outcome.splits)

lemma constFilterLoop_mapM:
  "constFilterLoop env vs elems elemTypes =
     andThen (mapM (\<lambda>v. ConstructConstVal env v (ResolvedType v)) vs)
       (\<lambda>es. returnM (elems @ es, elemTypes @ map ResolvedType vs))"
proof (induction vs arbitrary: elems elemTypes)
  case Nil
  show ?case by (simp add: andThen_returnM)
next
  case (Cons v vs)
  show ?case
    by (simp add: Cons.IH Let_def andThen_assoc andThen_returnM)
qed

lemma ConstructConstFilter_single:
  "ConstructConstFilter env col [v] =
     andThen (ConstructVariable env col) (\<lambda>var.
     andThen (ConstructConstVal env v (ResolvedType v)) (\<lambda>c.
     andThen (ConstructEq env var c) (\<lambda>eq. ConstructFiltersItem env eq)))"
  by (simp add: ConstructConstFilter_def)

lemma ConstructConstFilter_many:
  "length vals \<noteq> 1 \<Longrightarrow> ConstructConstFilter env col vals =
     andThen (mapM (\<lambda>v. ConstructConstVal env v (ResolvedType v)) vals) (\<lambda>elems.
     andThen (ConstructVariable env col) (\<lambda>var.
     andThen (ConstructTuple env elems (MakeTuple (map ResolvedType vals))) (\<lambda>tup.
     andThen (ConstructIn env var tup) (\<lambda>inExpr. ConstructFiltersItem env inExpr))))"
  by (simp add: ConstructConstFilter_def constFilterLoop_mapM andThen_assoc andThen_returnM)

lemma quiet_Memoize: "quiet env f \<Longrightarrow> quiet env (f\<lparr>mem := Memoize e (mem f)\<rparr>)"
  by (rule quiet_step [OF _ preserved_Memoize]) simp_all

lemma construct_quiet:
  assumes "quiet env f" and "\<not> IsRelExpr e"
  shows "\<exists>f'. construct env e f = (Returned e, f') \<and> quiet env f'"
  using construct_quiet_scalar [OF assms] quiet_Memoize [OF assms(1)] by blast

lemma ConstructConstVal_quiet:
  assumes "quiet env f"
  shows "\<exists>f'. ConstructConstVal env d t f = (Returned (canonicalConst d t), f') \<and> quiet env f'"
proof (cases d)
  case DNull
  then show ?thesis
    using construct_quiet [OF assms, of "Expr (NullNode t) []"]
    by (simp add: ConstructConstVal_def ConstructNull_def canonicalConst_def IsRelExpr_def)
next
  case (DBool b)
  then show ?thesis using assms
    by (simp add: ConstructConstVal_def canonicalConst_def returnM_def)
next
  case (DInt i)
  then show ?thesis
    using construct_quiet [OF assms, of "Expr (ConstNode d t) []"]
    by (simp add: ConstructConstVal_def ConstructConst_def canonicalConst_def IsRelExpr_def)
next
  case (DString s)
  then show ?thesis
    using construct_quiet [OF assms, of "Expr (ConstNode d t) []"]
    by (simp add: ConstructConstVal_def ConstructConst_def canonicalConst_def IsRelExpr_def)
qed

lemma mapM_ConstructConstVal_quiet:
  "quiet env f \<Longrightarrow>
     \<exists>f'. mapM (\<lambda>v. ConstructConstVal env v (ResolvedType v)) vs f
              = (Returned (map (\<lambda>v. canonicalConst v (ResolvedType v)) vs), f') \<and> quiet env f'"
proof (induction vs arbitrary: f)
  case Nil
  then show ?case by (simp add: returnM_def)
next
  case (Cons v vs)
  obtain f1 where a: "ConstructConstVal env v (ResolvedType v) f = (Returned (canonicalConst v (ResolvedType v)), f1)"
    and q1: "quiet env f1"
    using ConstructConstVal_quiet [OF Cons.prems] by blast
  obtain f2 where b: "mapM (\<lambda>v. ConstructConstVal env v (ResolvedType v)) vs f1
              = (Returned (map (\<lambda>v. canonicalConst v (ResolvedType v)) vs), f2)" and q2: "quiet env f2"
    using Cons.IH [OF q1] by blast
  show ?case using q2 by (simp add: andThen_def a b returnM_def)
qed

lemma ConstructConstFilter_single_quiet:
  assumes "quiet env f"
  shows "\<exists>f'. ConstructConstFilter env col [v] f =
           (Returned (Expr FiltersItemNode
              [Expr EqNode [Expr (VariableNode col) [], canonicalConst v (ResolvedType v)]]), f')"
proof -
  obtain f1 where a: "ConstructVariable env col f = (Returned (Expr (VariableNode col) []), f1)"
    and q1: "quiet env f1"
    using construct_quiet [OF assms, of "Expr (VariableNode col) []"]
    by (auto simp: ConstructVariable_def IsRelExpr_def)
  obtain f2 where b: "ConstructConstVal env v (ResolvedType v) f1
                       = (Returned (canonicalConst v (ResolvedType v)), f2)"
    and q2: "quiet env f2"
    using ConstructConstVal_quiet [OF q1] by blast
  let ?eq = "Expr EqNode [Expr (VariableNode col) [], canonicalConst v (ResolvedType v)]"
  obtain f3 where c: "ConstructEq env (Expr (VariableNode col) []) (canonicalConst v (ResolvedType v)) f2
                       = (Returned ?eq, f3)"
    and q3: "quiet env f3"
    using construct_quiet [OF q2, of ?eq] by (auto simp: ConstructEq_def IsRelExpr_def)
  obtain f4 where d: "ConstructFiltersItem env ?eq f3 = (Returned (Expr FiltersItemNode [?eq]), f4)"
    using construct_quiet [OF q3, of "Expr FiltersItemNode [?eq]"]
    by (auto simp: ConstructFiltersItem_def IsRelExpr_def)
  show ?thesis
    by (simp add: ConstructConstFilter_single andThen_def a b c d)
qed

lemma ConstructConstFilter_many_quiet:
  assumes "quiet env f" and "length vals \<noteq> 1"
  shows "\<exists>f'. ConstructConstFilter env col vals f =
           (Returned (Expr FiltersItemNode
              [Expr InNode [Expr (VariableNode col) [],
                            Expr (TupleNode (TTuple (map ResolvedType vals)))
                                 (map (\<lambda>v. canonicalConst v (ResolvedType v)) vals)]]), f')"
proof -
  let ?elems = "map (\<lambda>v. canonicalConst v (ResolvedType v)) vals"
  obtain f0 where m: "mapM (\<lambda>v. ConstructConstVal env v (ResolvedType v)) vals f = (Returned ?elems, f0)"
    and q0: "quiet env f0"
    using mapM_ConstructConstVal_quiet [OF assms(1)] by blast
  obtain f1 where a: "ConstructVariable env col f0 = (Returned (Expr (VariableNode col) []), f1)"
    and q1: "quiet env f1"
    using construct_quiet [OF q0, of "Expr (VariableNode col) []"]
    by (auto simp: ConstructVariable_def IsRelExpr_def)
  let ?tup = "Expr (TupleNode (TTuple (map ResolvedType vals))) ?elems"
  obtain f2 where b: "ConstructTuple env ?elems (MakeTuple (map ResolvedType vals)) f1 = (Returned ?tup, f2)"
    and q2: "quiet env f2"
    using construct_quiet [OF q1, of ?tup]
    by (auto simp: ConstructTuple_def MakeTuple_def IsRelExpr_def)
  let ?in = "Expr InNode [Expr (VariableNode col) [], ?tup]"
  obtain f3 where c: "ConstructIn env (Expr (VariableNode col) []) ?tup f2 = (Returned ?in, f3)"
    and q3: "quiet env f3"
    using construct_quiet [OF q2, of ?in] by (auto simp: ConstructIn_def IsRelExpr_def)
  obtain f4 where d: "ConstructFiltersItem env ?in f3 = (Returned (Expr FiltersItemNode [?in]), f4)"
    using construct_quiet [OF q3, of "Expr FiltersItemNode [?in]"]
    by (auto simp: ConstructFiltersItem_def IsRelExpr_def)
  show ?thesis
    by (simp add: ConstructConstFilter_many [OF assms(2)] andThen_def m a b c d)
qed

subsection \<open>Interning\<close>













subsection \<open>Cases of the construction protocol; panics carry errors\<close>


lemma construct_induct_rules [case_names step]:
  assumes "\<And>(env :: env) (e :: expr) (f :: Factory).
             (\<And>rl e'. constructorStackDepth f < maxConstructorStackDepth \<Longrightarrow>
                        findRule f (rules env) e = Some (rl, e') \<Longrightarrow>
                        P env e' (f\<lparr>constructorStackDepth := constructorStackDepth f + 1\<rparr>))
             \<Longrightarrow> P env e f"
  shows "P (env :: env) (e :: expr) (f :: Factory)"
proof (induction env e f rule: construct.induct)
  case (1 env e f)
  show ?case
  proof (rule assms)
    fix rl e'
    assume lt: "constructorStackDepth f < maxConstructorStackDepth"
       and fr: "findRule f (rules env) e = Some (rl, e')"
    let ?f1 = "f\<lparr>constructorStackDepth := constructorStackDepth f + 1\<rparr>"
    have nlt: "\<not> maxConstructorStackDepth < constructorStackDepth ?f1" using lt by simp
    have fr1: "findRule ?f1 (rules env) e = Some (rl, e')" using fr by (simp add: findRule_depth)
    show "P env e' ?f1" by (rule "1.IH" [OF refl nlt fr1 refl])
  qed
qed
















subsection \<open>Copies that leave the expression as it is\<close>

lemma construct_evalExpr: "construct (env\<lparr>evalExpr := ev\<rparr>) e f = construct env e f"
proof (induction env e f rule: construct_induct_rules)
  case (step env e f)
  let ?env' = "env\<lparr>evalExpr := ev\<rparr>"
  let ?f1 = "f\<lparr>constructorStackDepth := constructorStackDepth f + 1\<rparr>"
  have iaf: "internAndFinish ?env' e g = internAndFinish env e g" for g
    by (simp add: internAndFinish_def onConstructRelational_def Let_def)
  have om: "onMaxConstructorStackDepthExceeded ?env' g = onMaxConstructorStackDepthExceeded env g" for g
    by (simp add: onMaxConstructorStackDepthExceeded_def)
  show ?case
  proof (cases "maxConstructorStackDepth \<le> constructorStackDepth f")
    case True
    show ?thesis by (simp add: construct_guard [OF True] iaf om split: prod.splits outcome.splits)
  next
    case False
    then have lt: "constructorStackDepth f < maxConstructorStackDepth" by simp
    show ?thesis
    proof (cases "findRule f (rules env) e")
      case None
      then have n': "findRule f (rules ?env') e = None" by simp
      show ?thesis by (simp add: construct_norule [OF lt None] construct_norule [OF lt n'] iaf)
    next
      case (Some a)
      then obtain rl e' where fr: "findRule f (rules env) e = Some (rl, e')" by (cases a) auto
      then have fr': "findRule f (rules ?env') e = Some (rl, e')" by simp
      have ih: "construct ?env' e' ?f1 = construct env e' ?f1" by (rule step.IH [OF lt fr])
      show ?thesis
        by (simp add: construct_rule [OF lt fr] construct_rule [OF lt fr'] ih
            split: prod.splits outcome.splits)
    qed
  qed
qed

lemma mapM_cong_set:
  "(\<And>x. x \<in> set xs \<Longrightarrow> g x = h x) \<Longrightarrow> mapM g xs = mapM h xs"
  by (induction xs) simp_all

lemma CopyWithout_evalExpr:
  "CopyWithoutAssigningPlaceholders (env\<lparr>evalExpr := ev\<rparr>) e = CopyWithoutAssigningPlaceholders env e"
proof (induction e)
  case (Expr n kids)
  have eq: "CopyWithoutAssigningPlaceholders env' (Expr n kids) =
        andThen (mapM (CopyWithoutAssigningPlaceholders env') kids) (\<lambda>kids'. construct env' (Expr n kids'))"
    for env'
    by (simp add: CopyWithout_list_mapM CopyWithoutAssigningPlaceholders.simps)
  have m: "mapM (CopyWithoutAssigningPlaceholders (env\<lparr>evalExpr := ev\<rparr>)) kids
             = mapM (CopyWithoutAssigningPlaceholders env) kids"
    by (rule mapM_cong_set) (rule Expr.IH)
  have c: "(\<lambda>kids'. construct (env\<lparr>evalExpr := ev\<rparr>) (Expr n kids'))
             = (\<lambda>kids'. construct env (Expr n kids'))"
    by (rule ext)+ (rule construct_evalExpr)
  show ?case unfolding eq m c ..
qed

lemma CopyWithout_leaf:
  "CopyWithoutAssigningPlaceholders env (Expr n []) = construct env (Expr n [])"
  by (simp add: CopyWithoutAssigningPlaceholders.simps andThen_returnM)

lemma construct_quiet_scalar_frame:
  assumes "quiet env f" and "\<not> IsRelExpr e"
  shows "\<exists>f'. construct env e f = (Returned e, f') \<and> quiet env f'
            \<and> metadata (mem f') = metadata (mem f)
            \<and> e \<in> set (interner (mem f'))
            \<and> set (interner (mem f)) \<subseteq> set (interner (mem f'))"
proof -
  have c: "construct env e f = (Returned e, f\<lparr>mem := Memoize e (mem f)\<rparr>)"
    by (rule construct_quiet_scalar [OF assms])
  have q: "quiet env (f\<lparr>mem := Memoize e (mem f)\<rparr>)" by (rule quiet_Memoize [OF assms(1)])
  show ?thesis using c q by (auto simp add: Memoize_def)
qed

lemma mapM_quiet_copy:
  assumes "\<And>k f. k \<in> set ks \<Longrightarrow> quiet env f \<Longrightarrow>
             \<exists>f'. g k f = (Returned k, f') \<and> quiet env f'
                  \<and> metadata (mem f') = metadata (mem f)
                  \<and> k \<in> set (interner (mem f'))
                  \<and> set (interner (mem f)) \<subseteq> set (interner (mem f'))"
      and "quiet env f"
  shows "\<exists>f'. mapM g ks f = (Returned ks, f') \<and> quiet env f'
                  \<and> metadata (mem f') = metadata (mem f)
                  \<and> set ks \<subseteq> set (interner (mem f'))
                  \<and> set (interner (mem f)) \<subseteq> set (interner (mem f'))"
  using assms
proof (induction ks arbitrary: f)
  case Nil
  then show ?case by (simp add: returnM_def)
next
  case (Cons k ks)
  obtain f1 where g: "g k f = (Returned k, f1)" and q1: "quiet env f1"
      and m1: "metadata (mem f1) = metadata (mem f)"
      and i1: "k \<in> set (interner (mem f1))" "set (interner (mem f)) \<subseteq> set (interner (mem f1))"
    using Cons.prems(1) [of k f] Cons.prems(2) by auto
  obtain f2 where r: "mapM g ks f1 = (Returned ks, f2)" and q2: "quiet env f2"
      and m2: "metadata (mem f2) = metadata (mem f1)"
      and i2: "set ks \<subseteq> set (interner (mem f2))" "set (interner (mem f1)) \<subseteq> set (interner (mem f2))"
    using Cons.IH [of f1] Cons.prems(1) q1 by auto
  have "mapM g (k # ks) f = (Returned (k # ks), f2)"
    using g r by (simp add: andThen_def returnM_def)
  then show ?case using q2 m1 m2 i1 i2 by auto
qed

lemma CopyWithout_quiet:
  "scalarTree e \<Longrightarrow> quiet env f \<Longrightarrow>
     \<exists>f'. CopyWithoutAssigningPlaceholders env e f = (Returned e, f') \<and> quiet env f'
          \<and> metadata (mem f') = metadata (mem f)
          \<and> e \<in> set (interner (mem f'))
          \<and> set (interner (mem f)) \<subseteq> set (interner (mem f'))"
proof (induction e arbitrary: f)
  case (Expr n kids)
  have eq: "CopyWithoutAssigningPlaceholders env (Expr n kids) =
        andThen (mapM (CopyWithoutAssigningPlaceholders env) kids) (\<lambda>kids'. construct env (Expr n kids'))"
    by (simp add: CopyWithout_list_mapM CopyWithoutAssigningPlaceholders.simps)
  have sk: "\<And>k. k \<in> set kids \<Longrightarrow> scalarTree k" and sn: "\<not> IsRelExpr (Expr n kids)"
    using Expr.prems(1) by (simp_all add: IsRelExpr_def)
  obtain f1 where r: "mapM (CopyWithoutAssigningPlaceholders env) kids f = (Returned kids, f1)"
      and q1: "quiet env f1" and m1: "metadata (mem f1) = metadata (mem f)"
      and i1: "set (interner (mem f)) \<subseteq> set (interner (mem f1))"
    using mapM_quiet_copy [of kids env "CopyWithoutAssigningPlaceholders env" f]
      Expr.IH sk Expr.prems(2) by blast
  obtain f2 where c: "construct env (Expr n kids) f1 = (Returned (Expr n kids), f2)"
      and q2: "quiet env f2" and m2: "metadata (mem f2) = metadata (mem f1)"
      and i2: "Expr n kids \<in> set (interner (mem f2))"
              "set (interner (mem f1)) \<subseteq> set (interner (mem f2))"
    using construct_quiet_scalar_frame [OF q1 sn] by blast
  have "CopyWithoutAssigningPlaceholders env (Expr n kids) f = (Returned (Expr n kids), f2)"
    unfolding eq using r c by (simp add: andThen_def)
  then show ?case using q2 m1 m2 i1 i2 by auto
qed

lemma copyTables_quiet:
  assumes "\<forall>t \<in> set tabs. \<forall>e \<in> set (tabExprs (snd t)). scalarTree e" and "quiet env f"
  shows "\<exists>f'. copyTables (CopyWithoutAssigningPlaceholders env) tabs f = (Returned tabs, f')
              \<and> quiet env f' \<and> metadata (mem f') = metadata (mem f)
              \<and> (\<forall>t \<in> set tabs. \<forall>e \<in> set (tabExprs (snd t)). e \<in> set (interner (mem f')))
              \<and> set (interner (mem f)) \<subseteq> set (interner (mem f'))"
  using assms
proof (induction tabs arbitrary: f)
  case Nil
  then show ?case by (simp add: returnM_def)
next
  case (Cons a tabs)
  obtain tid tm where a: "a = (tid, tm)" by (cases a)
  have sc: "\<And>k. k \<in> set (tabExprs tm) \<Longrightarrow> scalarTree k" using Cons.prems(1) a by auto
  obtain f1 where r: "mapM (CopyWithoutAssigningPlaceholders env) (tabExprs tm) f
                        = (Returned (tabExprs tm), f1)"
      and q1: "quiet env f1" and m1: "metadata (mem f1) = metadata (mem f)"
      and i1: "set (tabExprs tm) \<subseteq> set (interner (mem f1))"
              "set (interner (mem f)) \<subseteq> set (interner (mem f1))"
    using mapM_quiet_copy [of "tabExprs tm" env "CopyWithoutAssigningPlaceholders env" f]
      CopyWithout_quiet sc Cons.prems(2) by blast
  have rest: "\<forall>t \<in> set tabs. \<forall>e \<in> set (tabExprs (snd t)). scalarTree e"
    using Cons.prems(1) by simp
  obtain f2 where c: "copyTables (CopyWithoutAssigningPlaceholders env) tabs f1 = (Returned tabs, f2)"
      and q2: "quiet env f2" and m2: "metadata (mem f2) = metadata (mem f1)"
      and i2: "\<forall>t \<in> set tabs. \<forall>e \<in> set (tabExprs (snd t)). e \<in> set (interner (mem f2))"
              "set (interner (mem f1)) \<subseteq> set (interner (mem f2))"
    using Cons.IH [OF rest q1] by blast
  have "copyTables (CopyWithoutAssigningPlaceholders env) (a # tabs) f = (Returned (a # tabs), f2)"
    unfolding a using r c by (simp add: andThen_def returnM_def)
  then show ?case using q2 m1 m2 i1 i2 a by auto
qed

lemma quiet_cong:
  assumes "matchedRule f' = matchedRule f" and "constructorStackDepth f' = constructorStackDepth f"
  shows "quiet env f' = quiet env f"
proof -
  have "findRule f' rs e = findRule f rs e" for rs e
    using assms(1) by (induction rs) (auto simp: ruleAllowed_def split: option.splits)
  then show ?thesis using assms(2) by (simp add: quiet_def noRuleFires_def)
qed

lemma Metadata_CopyFrom_quiet:
  assumes "\<forall>t \<in> set (mdTables src). \<forall>e \<in> set (tabExprs (snd t)). scalarTree e" and "quiet env f"
  shows "\<exists>f2. Metadata_CopyFrom src (CopyWithoutAssigningPlaceholders env) f = (Returned (), f2)
              \<and> metadata (mem f2) = src
              \<and> (\<forall>t \<in> set (mdTables src). \<forall>e \<in> set (tabExprs (snd t)). e \<in> set (interner (mem f2)))"
proof -
  let ?f0 = "setMetadata \<lparr>mdCols = mdCols src, mdTables = [], currUniqueID = currUniqueID src\<rparr> f"
  have q0: "quiet env ?f0" using quiet_cong [of ?f0 f env] assms(2) by (simp add: setMetadata_def)
  obtain f1 where c: "copyTables (CopyWithoutAssigningPlaceholders env) (mdTables src) ?f0
                        = (Returned (mdTables src), f1)"
      and m1: "metadata (mem f1) = metadata (mem ?f0)"
      and i1: "\<forall>t \<in> set (mdTables src). \<forall>e \<in> set (tabExprs (snd t)). e \<in> set (interner (mem f1))"
    using copyTables_quiet [OF assms(1) q0] by blast
  have "Metadata_CopyFrom src (CopyWithoutAssigningPlaceholders env) f
          = (Returned (), setMetadata ((metadata (mem f1))\<lparr>mdTables := mdTables src\<rparr>) f1)"
    using c by (simp add: Metadata_CopyFrom_def Let_def andThen_def)
  moreover have "metadata (mem (setMetadata ((metadata (mem f1))\<lparr>mdTables := mdTables src\<rparr>) f1)) = src"
    using m1 by (simp add: setMetadata_def)
  moreover have "interner (mem (setMetadata md f1)) = interner (mem f1)" for md
    by (simp add: setMetadata_def)
  ultimately show ?thesis using i1 by auto
qed

subsection \<open>Constructing the same node twice\<close>












section \<open>Properties\<close>

subsection \<open>Rule-disable scoping\<close>

text \<open>
  C8. For every \<open>fn\<close> that returns normally and every previously installed match-veto
  callback (none, or the reject-all veto of an enclosing temporary disable, included):
  \<open>DisableOptimizationsTemporarily fn\<close> runs \<open>fn\<close> on the factory with the reject-all
  veto installed, and after \<open>fn\<close> returns the callback that was installed before the
  call is installed again, whatever \<open>fn\<close> did to the field. Nested in a temporary
  disable, the inner call restores the reject-all veto of the outer one and the outer
  call restores the original callback; the next construction call consults the
  original callback (\<open>ruleAllowed\<close> is what the constructors and the finishing hook ask).
\<close>

theorem DisableOptimizationsTemporarily_restores:
  assumes "fn (DisableOptimizations f) = (Returned u, f2)"
  shows "DisableOptimizations f = f\<lparr>matchedRule := Some (\<lambda>r. False)\<rparr>
       \<and> DisableOptimizationsTemporarily fn f = (Returned (), f2\<lparr>matchedRule := matchedRule f\<rparr>)
       \<and> matchedRule (snd (DisableOptimizationsTemporarily fn f)) = matchedRule f
       \<and> DisableOptimizationsTemporarily fn (DisableOptimizations f)
           = (Returned (), f2\<lparr>matchedRule := Some (\<lambda>r. False)\<rparr>)
       \<and> DisableOptimizationsTemporarily (DisableOptimizationsTemporarily fn) f
           = (Returned (), f2\<lparr>matchedRule := matchedRule f\<rparr>)
       \<and> ruleAllowed (snd (DisableOptimizationsTemporarily fn f)) name = ruleAllowed f name"
  using assms
  by (simp add: DisableOptimizationsTemporarily_def DisableOptimizations_def
      NotifyOnMatchedRule_def Let_def ruleAllowed_def)

theorem DisableOptimizationsTemporarily_restores_witness:
  "returnM () (DisableOptimizations (NotifyOnMatchedRule (Some (\<lambda>r. r = NormRule 7)) sampleFactory))
     = (Returned (), DisableOptimizations (NotifyOnMatchedRule (Some (\<lambda>r. r = NormRule 7)) sampleFactory))
   \<and> ruleAllowed (snd (DisableOptimizationsTemporarily (returnM ())
        (NotifyOnMatchedRule (Some (\<lambda>r. r = NormRule 7)) sampleFactory))) (NormRule 7)
   \<and> matchedRule (snd (DisableOptimizationsTemporarily (returnM ())
        (NotifyOnMatchedRule (Some (\<lambda>r. r = NormRule 7)) sampleFactory)))
      = Some (\<lambda>r. r = NormRule 7)"
proof -
  let ?f = "NotifyOnMatchedRule (Some (\<lambda>r. r = NormRule 7)) sampleFactory"
  have h: "returnM () (DisableOptimizations ?f) = (Returned (), DisableOptimizations ?f)"
    by (simp add: returnM_def)
  have a: "ruleAllowed ?f (NormRule 7)" and m: "matchedRule ?f = Some (\<lambda>r. r = NormRule 7)"
    by (simp_all add: ruleAllowed_def NotifyOnMatchedRule_def)
  note t = DisableOptimizationsTemporarily_restores
             [of "returnM ()" ?f "()" "DisableOptimizations ?f" "NormRule 7", OF h]
  from t a have "ruleAllowed (snd (DisableOptimizationsTemporarily (returnM ()) ?f)) (NormRule 7)"
    by blast
  moreover from t have e: "matchedRule (snd (DisableOptimizationsTemporarily (returnM ()) ?f))
                           = matchedRule ?f"
    by blast
  have "matchedRule (snd (DisableOptimizationsTemporarily (returnM ()) ?f))
          = Some (\<lambda>r. r = NormRule 7)"
    by (rule trans [OF e m])
  ultimately show ?thesis using h by blast
qed

text \<open>
  C10. If \<open>fn\<close> panics, \<open>DisableOptimizationsTemporarily\<close> restores nothing: the panic
  propagates with the factory exactly as \<open>fn\<close> left it. For an \<open>fn\<close> that left the
  match-veto field as it found it, the reject-all veto installed at the start is still
  the active callback after the panic, and every rule that the previously installed
  callback allowed is now rejected.
\<close>

theorem DisableOptimizationsTemporarily_panic_not_restored:
  assumes "fn (DisableOptimizations f) = (Panicked p, f2)"
      and "matchedRule f2 = matchedRule (DisableOptimizations f)"
  shows "DisableOptimizationsTemporarily fn f = (Panicked p, f2)
       \<and> matchedRule (snd (DisableOptimizationsTemporarily fn f)) = Some (\<lambda>r. False)
       \<and> \<not> ruleAllowed (snd (DisableOptimizationsTemporarily fn f)) name"
  using assms
  by (simp add: DisableOptimizationsTemporarily_def DisableOptimizations_def
      NotifyOnMatchedRule_def Let_def ruleAllowed_def)

theorem DisableOptimizationsTemporarily_panic_not_restored_witness:
  "panic (OtherValue ''boom'') (DisableOptimizations sampleFactory)
     = (Panicked (OtherValue ''boom''), DisableOptimizations sampleFactory)
   \<and> matchedRule sampleFactory = None
   \<and> ruleAllowed sampleFactory (NormRule 7)
   \<and> DisableOptimizationsTemporarily (panic (OtherValue ''boom'')) sampleFactory
       = (Panicked (OtherValue ''boom''), DisableOptimizations sampleFactory)
   \<and> matchedRule (snd (DisableOptimizationsTemporarily (panic (OtherValue ''boom'')) sampleFactory))
       = Some (\<lambda>r. False)
   \<and> \<not> ruleAllowed (snd (DisableOptimizationsTemporarily (panic (OtherValue ''boom'')) sampleFactory))
          (NormRule 7)"
proof -
  have h: "panic (OtherValue ''boom'') (DisableOptimizations sampleFactory)
             = (Panicked (OtherValue ''boom''), DisableOptimizations sampleFactory)"
    by (simp add: panic_def)
  have m: "matchedRule sampleFactory = None" and a: "ruleAllowed sampleFactory (NormRule 7)"
    by (simp_all add: sampleFactory_def Init_def ruleAllowed_def)
  note t = DisableOptimizationsTemporarily_panic_not_restored
             [of "panic (OtherValue ''boom'')" sampleFactory "OtherValue ''boom''"
                 "DisableOptimizations sampleFactory" "NormRule 7", OF h refl]
  show ?thesis using h m a t by blast
qed

subsection \<open>The zero-cardinality rule of the finishing hook\<close>

text \<open>
  C1. For a relational node whose operator is not Values: when its cached logical
  properties report the cardinality [0,0] and a leakproof volatility set, and the
  match-veto callback is absent or accepts \<open>SimplifyZeroCardinalityGroup\<close>,
  \<open>onConstructRelational\<close> returns a Values node without rows whose columns are the
  output columns of the node (with the next unique id of the metadata); when the
  callback rejects the rule, and when the node is not leakproof or its cardinality is
  not [0,0], the node is returned and the factory is unchanged.
\<close>

theorem onConstructRelational_zero_cardinality:
  assumes "Op rel \<noteq> ValuesOp"
  shows "(IsZero (Cardinality (cachedProps env rel)) \<and> IsLeakproof (VolatilitySet (cachedProps env rel))
           \<and> ruleAllowed f SimplifyZeroCardinalityGroup \<longrightarrow>
            fst (onConstructRelational env rel f)
              = Expr (ValuesNode (OutputCols (cachedProps env rel))
                        (currUniqueID (metadata (mem f)) + 1)) [])
       \<and> (IsZero (Cardinality (cachedProps env rel)) \<and> IsLeakproof (VolatilitySet (cachedProps env rel))
           \<and> \<not> ruleAllowed f SimplifyZeroCardinalityGroup \<longrightarrow>
            onConstructRelational env rel f = (rel, f))
       \<and> (\<not> IsLeakproof (VolatilitySet (cachedProps env rel))
           \<or> \<not> IsZero (Cardinality (cachedProps env rel)) \<longrightarrow>
            onConstructRelational env rel f = (rel, f))"
  using assms
  by (auto simp add: onConstructRelational_def Let_def ConstructEmptyValues_def NextUniqueID_def
      split: prod.splits)

theorem onConstructRelational_zero_cardinality_witness:
  "Op (Expr (RelNode 0 0) []) \<noteq> ValuesOp
 \<and> IsZero (Cardinality (cachedProps sampleEnv (Expr (RelNode 0 0) [])))
 \<and> IsLeakproof (VolatilitySet (cachedProps sampleEnv (Expr (RelNode 0 0) [])))
 \<and> ruleAllowed sampleFactory SimplifyZeroCardinalityGroup
 \<and> fst (onConstructRelational sampleEnv (Expr (RelNode 0 0) []) sampleFactory)
      = Expr (ValuesNode [1, 2] 1) []
 \<and> \<not> ruleAllowed (DisableOptimizations sampleFactory) SimplifyZeroCardinalityGroup
 \<and> onConstructRelational sampleEnv (Expr (RelNode 0 0) []) (DisableOptimizations sampleFactory)
      = (Expr (RelNode 0 0) [], DisableOptimizations sampleFactory)
 \<and> \<not> IsLeakproof (VolatilitySet (cachedProps sampleEnv (Expr (RelNode 0 1) [])))
 \<and> onConstructRelational sampleEnv (Expr (RelNode 0 1) []) sampleFactory
      = (Expr (RelNode 0 1) [], sampleFactory)
 \<and> \<not> IsZero (Cardinality (cachedProps sampleEnv (Expr (RelNode 3 0) [])))
 \<and> onConstructRelational sampleEnv (Expr (RelNode 3 0) []) sampleFactory
      = (Expr (RelNode 3 0) [], sampleFactory)"
proof -
  have op: "Op (Expr (RelNode k p) []) \<noteq> ValuesOp" for k p by simp
  have z: "IsZero (Cardinality (cachedProps sampleEnv (Expr (RelNode 0 p) [])))" for p
    by (simp add: sampleEnv_def sampleProps_def IsZero_def)
  have nz: "\<not> IsZero (Cardinality (cachedProps sampleEnv (Expr (RelNode 3 0) [])))"
    by (simp add: sampleEnv_def sampleProps_def IsZero_def)
  have l: "IsLeakproof (VolatilitySet (cachedProps sampleEnv (Expr (RelNode k 0) [])))" for k
    by (simp add: sampleEnv_def sampleProps_def IsLeakproof_def)
  have nl: "\<not> IsLeakproof (VolatilitySet (cachedProps sampleEnv (Expr (RelNode 0 1) [])))"
    by (simp add: sampleEnv_def sampleProps_def IsLeakproof_def)
  have a: "ruleAllowed sampleFactory SimplifyZeroCardinalityGroup"
    by (simp add: ruleAllowed_def sampleFactory_def Init_def)
  have na: "\<not> ruleAllowed (DisableOptimizations sampleFactory) SimplifyZeroCardinalityGroup"
    by (simp add: ruleAllowed_def DisableOptimizations_def NotifyOnMatchedRule_def)
  have cols: "OutputCols (cachedProps sampleEnv (Expr (RelNode 0 0) [])) = [1, 2]"
    by (simp add: sampleEnv_def sampleProps_def)
  have uid: "currUniqueID (metadata (mem sampleFactory)) + 1 = 1"
    by (simp add: sampleFactory_def Init_def Memo_Init_def)
  have "fst (onConstructRelational sampleEnv (Expr (RelNode 0 0) []) sampleFactory)
          = Expr (ValuesNode [1, 2] 1) []"
    using onConstructRelational_zero_cardinality [of "Expr (RelNode 0 0) []" sampleEnv sampleFactory, OF op] z l a cols uid by simp
  moreover have "onConstructRelational sampleEnv (Expr (RelNode 0 0) []) (DisableOptimizations sampleFactory)
      = (Expr (RelNode 0 0) [], DisableOptimizations sampleFactory)"
    using onConstructRelational_zero_cardinality [of "Expr (RelNode 0 0) []" sampleEnv "DisableOptimizations sampleFactory", OF op] z l na by blast
  moreover have "onConstructRelational sampleEnv (Expr (RelNode 0 1) []) sampleFactory
      = (Expr (RelNode 0 1) [], sampleFactory)"
    using onConstructRelational_zero_cardinality [of "Expr (RelNode 0 1) []" sampleEnv sampleFactory, OF op] nl by blast
  moreover have "onConstructRelational sampleEnv (Expr (RelNode 3 0) []) sampleFactory
      = (Expr (RelNode 3 0) [], sampleFactory)"
    using onConstructRelational_zero_cardinality [of "Expr (RelNode 3 0) []" sampleEnv sampleFactory, OF op] nz by blast
  ultimately show ?thesis using op z l a na nl nz by blast
qed

subsection \<open>Copy and replace\<close>

text \<open>
  C4. \<open>CopyAndReplace\<close> panics with the assertion failure "destination memo must be
  empty", leaving the factory untouched, whenever the memo of the factory is not empty,
  for every source memo, source root, required properties and substitution callback.
  When the memo is empty the check raises nothing: the outcome is that of the steps
  that follow it (the metadata copy, the callback on the root, the type assertion).
\<close>

theorem CopyAndReplace_requires_empty_memo:
  "(\<not> IsEmpty (mem f) \<longrightarrow>
      CopyAndReplace env fromMemo from fromProps replace f
        = (Panicked (ErrorValue (AssertionFailed ''destination memo must be empty'')), f))
 \<and> (IsEmpty (mem f) \<longrightarrow>
      CopyAndReplace env fromMemo from fromProps replace f =
       (case Metadata_CopyFrom (metadata fromMemo) (CopyWithoutAssigningPlaceholders env)
               (f\<lparr>mem := CopyNextRankFrom fromMemo (mem f)\<rparr>) of
          (Panicked p, f2) \<Rightarrow> (Panicked p, f2)
        | (Returned u, f2) \<Rightarrow>
            (case replace from f2 of
               (Panicked p, f3) \<Rightarrow> (Panicked p, f3)
             | (Returned to, f3) \<Rightarrow>
                 if IsRelExpr to then (Returned (), f3\<lparr>mem := SetRoot to fromProps (mem f3)\<rparr>)
                 else (Panicked (ErrorValue (RuntimeError
                         ''interface conversion: not a memo.RelExpr'')), f3))))"
  using CopyAndReplace_empty [of f env fromMemo "from" fromProps replace]
  by (simp add: CopyAndReplace_def)

theorem CopyAndReplace_requires_empty_memo_witness:
  "\<not> IsEmpty (mem (interned [TrueSingleton] sampleFactory))
 \<and> CopyAndReplace sampleEnv sampleMemo (sampleRoot 1) (Some (Required 4)) (replaceFn sampleEnv)
       (interned [TrueSingleton] sampleFactory)
     = (Panicked (ErrorValue (AssertionFailed ''destination memo must be empty'')),
        interned [TrueSingleton] sampleFactory)
 \<and> IsEmpty (mem sampleFactory)
 \<and> fst (CopyAndReplace sampleEnv sampleMemo (sampleRoot 1) (Some (Required 4)) (replaceFn sampleEnv)
       sampleFactory) = Returned ()"
proof -
  let ?g = "interned [TrueSingleton] sampleFactory"
  have ne: "\<not> IsEmpty (mem ?g)"
    by (simp add: IsEmpty_def interned_def Memoize_def sampleFactory_def Init_def Memo_Init_def)
  have em: "IsEmpty (mem sampleFactory)"
    by (simp add: IsEmpty_def sampleFactory_def Init_def Memo_Init_def)
  note t1 = CopyAndReplace_requires_empty_memo
              [of ?g sampleEnv sampleMemo "sampleRoot 1" "Some (Required 4)" "replaceFn sampleEnv"]
  note t2 = CopyAndReplace_requires_empty_memo
              [of sampleFactory sampleEnv sampleMemo "sampleRoot 1" "Some (Required 4)"
                  "replaceFn sampleEnv"]
  have rhs: "fst (case Metadata_CopyFrom (metadata sampleMemo) (CopyWithoutAssigningPlaceholders sampleEnv)
               (sampleFactory\<lparr>mem := CopyNextRankFrom sampleMemo (mem sampleFactory)\<rparr>) of
          (Panicked p, f2) \<Rightarrow> (Panicked p, f2)
        | (Returned u, f2) \<Rightarrow>
            (case replaceFn sampleEnv (sampleRoot 1) f2 of
               (Panicked p, f3) \<Rightarrow> (Panicked p, f3)
             | (Returned to, f3) \<Rightarrow>
                 if IsRelExpr to
                 then (Returned (), f3\<lparr>mem := SetRoot to (Some (Required 4)) (mem f3)\<rparr>)
                 else (Panicked (ErrorValue (RuntimeError
                         ''interface conversion: not a memo.RelExpr'')), f3))) = Returned ()"
    by code_simp
  have "fst (CopyAndReplace sampleEnv sampleMemo (sampleRoot 1) (Some (Required 4)) (replaceFn sampleEnv)
       sampleFactory) = Returned ()"
    using t2 em rhs by simp
  moreover have "CopyAndReplace sampleEnv sampleMemo (sampleRoot 1) (Some (Required 4)) (replaceFn sampleEnv) ?g
     = (Panicked (ErrorValue (AssertionFailed ''destination memo must be empty'')), ?g)"
    using t1 ne by blast
  ultimately show ?thesis using ne em by blast
qed

text \<open>
  C5. On an empty destination memo, \<open>CopyAndReplace\<close> first seeds the rank counter of
  the destination with that of the source memo, then copies the metadata, and only
  then invokes the substitution callback on the source root. The scalar expressions
  embedded in the metadata are copied by \<open>CopyWithoutAssigningPlaceholders\<close>, which is
  the default copy with itself as the substitution: it rebuilds a placeholder as a
  placeholder, and depends neither on the evaluator nor on the values bound to the
  placeholders. Where constructors do not panic the metadata copy returns. When it
  returns, the callback runs in a factory \<open>f2\<close> whose rank counter is not below the
  source's, whose column descriptors are those of the source, whose tables have the
  identifiers and names of the source's tables, whose unique-id counter is not below
  the source's, and whose table expressions are what
  \<open>CopyWithoutAssigningPlaceholders\<close> returned for the source's. Where no rewrite
  rule fires and the embedded expressions are made of scalar nodes, the metadata of
  \<open>f2\<close> is the metadata of the source memo, embedded expressions included, and every
  embedded expression is interned in the destination memo. The relational expression
  the callback returns becomes the root of the destination memo, with the supplied
  required properties.
\<close>

theorem CopyAndReplace_seeds_copies_sets_root:
  assumes "IsEmpty (mem f)"
  shows "curRank (mem (f\<lparr>mem := CopyNextRankFrom fromMemo (mem f)\<rparr>)) = curRank fromMemo
       \<and> CopyWithoutAssigningPlaceholders env e
           = CopyAndReplaceDefault env e (CopyWithoutAssigningPlaceholders env)
       \<and> CopyWithoutAssigningPlaceholders env (Expr (PlaceholderNode v t) [])
           = construct env (Expr (PlaceholderNode v t) [])
       \<and> CopyWithoutAssigningPlaceholders (env\<lparr>evalExpr := ev\<rparr>) e
           = CopyWithoutAssigningPlaceholders env e
       \<and> (safe env f \<longrightarrow>
            (\<exists>f2. Metadata_CopyFrom (metadata fromMemo) (CopyWithoutAssigningPlaceholders env)
                     (f\<lparr>mem := CopyNextRankFrom fromMemo (mem f)\<rparr>) = (Returned (), f2)))
       \<and> (quiet env f
            \<and> (\<forall>tb \<in> set (mdTables (metadata fromMemo)). \<forall>x \<in> set (tabExprs (snd tb)). scalarTree x)
           \<longrightarrow>
            (\<exists>f2. Metadata_CopyFrom (metadata fromMemo) (CopyWithoutAssigningPlaceholders env)
                     (f\<lparr>mem := CopyNextRankFrom fromMemo (mem f)\<rparr>) = (Returned (), f2)
                 \<and> metadata (mem f2) = metadata fromMemo
                 \<and> (\<forall>tb \<in> set (mdTables (metadata fromMemo)). \<forall>x \<in> set (tabExprs (snd tb)).
                       x \<in> set (interner (mem f2)))))
       \<and> (\<forall>u f2. Metadata_CopyFrom (metadata fromMemo) (CopyWithoutAssigningPlaceholders env)
                     (f\<lparr>mem := CopyNextRankFrom fromMemo (mem f)\<rparr>) = (Returned u, f2) \<longrightarrow>
              curRank fromMemo \<le> curRank (mem f2)
            \<and> mdCols (metadata (mem f2)) = mdCols (metadata fromMemo)
            \<and> map fst (mdTables (metadata (mem f2))) = map fst (mdTables (metadata fromMemo))
            \<and> map (\<lambda>t. tabName (snd t)) (mdTables (metadata (mem f2)))
                = map (\<lambda>t. tabName (snd t)) (mdTables (metadata fromMemo))
            \<and> currUniqueID (metadata fromMemo) \<le> currUniqueID (metadata (mem f2))
            \<and> (\<exists>f1. copyTables (CopyWithoutAssigningPlaceholders env) (mdTables (metadata fromMemo))
                       (setMetadata \<lparr>mdCols = mdCols (metadata fromMemo), mdTables = [],
                                     currUniqueID = currUniqueID (metadata fromMemo)\<rparr>
                          (f\<lparr>mem := CopyNextRankFrom fromMemo (mem f)\<rparr>))
                     = (Returned (mdTables (metadata (mem f2))), f1))
            \<and> CopyAndReplace env fromMemo from fromProps replace f =
                (case replace from f2 of
                   (Panicked p, f3) \<Rightarrow> (Panicked p, f3)
                 | (Returned to, f3) \<Rightarrow>
                     if IsRelExpr to then (Returned (), f3\<lparr>mem := SetRoot to fromProps (mem f3)\<rparr>)
                     else (Panicked (ErrorValue (RuntimeError
                             ''interface conversion: not a memo.RelExpr'')), f3))
            \<and> (\<forall>to f3. replace from f2 = (Returned to, f3) \<and> IsRelExpr to \<longrightarrow>
                  CopyAndReplace env fromMemo from fromProps replace f
                    = (Returned (), f3\<lparr>mem := SetRoot to fromProps (mem f3)\<rparr>)
                  \<and> rootExpr (mem (snd (CopyAndReplace env fromMemo from fromProps replace f))) = Some to
                  \<and> rootProps (mem (snd (CopyAndReplace env fromMemo from fromProps replace f)))
                      = fromProps))"
proof -
  let ?f1 = "f\<lparr>mem := CopyNextRankFrom fromMemo (mem f)\<rparr>"
  let ?mc = "Metadata_CopyFrom (metadata fromMemo) (CopyWithoutAssigningPlaceholders env) ?f1"
  have seeded: "curRank (mem ?f1) = curRank fromMemo"
    by (simp add: CopyNextRankFrom_def)
  have dflt: "CopyWithoutAssigningPlaceholders env e
           = CopyAndReplaceDefault env e (CopyWithoutAssigningPlaceholders env)"
    by (rule CopyWithout_default)
  have leaf: "CopyWithoutAssigningPlaceholders env (Expr (PlaceholderNode v t) [])
           = construct env (Expr (PlaceholderNode v t) [])"
    by (rule CopyWithout_leaf)
  have noev: "CopyWithoutAssigningPlaceholders (env\<lparr>evalExpr := ev\<rparr>) e
           = CopyWithoutAssigningPlaceholders env e"
    by (rule CopyWithout_evalExpr)
  have ret: "safe env f \<longrightarrow> (\<exists>f2. ?mc = (Returned (), f2))"
  proof
    assume "safe env f"
    then have s1: "safe env ?f1" using safe_cong [of ?f1 f env] by simp
    show "\<exists>f2. ?mc = (Returned (), f2)"
      using Metadata_CopyFrom_returns [of env "CopyWithoutAssigningPlaceholders env" ?f1
              "metadata fromMemo"] CopyWithout_returns constructs_CopyWithout s1
      by blast
  qed
  have exact: "quiet env f
            \<and> (\<forall>tb \<in> set (mdTables (metadata fromMemo)). \<forall>x \<in> set (tabExprs (snd tb)). scalarTree x)
           \<longrightarrow>
            (\<exists>f2. ?mc = (Returned (), f2)
                 \<and> metadata (mem f2) = metadata fromMemo
                 \<and> (\<forall>tb \<in> set (mdTables (metadata fromMemo)). \<forall>x \<in> set (tabExprs (snd tb)).
                       x \<in> set (interner (mem f2))))"
  proof (intro impI, elim conjE)
    assume q: "quiet env f"
      and sc: "\<forall>tb \<in> set (mdTables (metadata fromMemo)). \<forall>x \<in> set (tabExprs (snd tb)). scalarTree x"
    have q1: "quiet env ?f1" using quiet_cong [of ?f1 f env] q by simp
    show "\<exists>f2. ?mc = (Returned (), f2)
                 \<and> metadata (mem f2) = metadata fromMemo
                 \<and> (\<forall>tb \<in> set (mdTables (metadata fromMemo)). \<forall>x \<in> set (tabExprs (snd tb)).
                       x \<in> set (interner (mem f2)))"
      by (rule Metadata_CopyFrom_quiet [OF sc q1])
  qed
  have after: "curRank fromMemo \<le> curRank (mem f2)
            \<and> mdCols (metadata (mem f2)) = mdCols (metadata fromMemo)
            \<and> map fst (mdTables (metadata (mem f2))) = map fst (mdTables (metadata fromMemo))
            \<and> map (\<lambda>t. tabName (snd t)) (mdTables (metadata (mem f2)))
                = map (\<lambda>t. tabName (snd t)) (mdTables (metadata fromMemo))
            \<and> currUniqueID (metadata fromMemo) \<le> currUniqueID (metadata (mem f2))
            \<and> (\<exists>f1. copyTables (CopyWithoutAssigningPlaceholders env) (mdTables (metadata fromMemo))
                       (setMetadata \<lparr>mdCols = mdCols (metadata fromMemo), mdTables = [],
                                     currUniqueID = currUniqueID (metadata fromMemo)\<rparr> ?f1)
                     = (Returned (mdTables (metadata (mem f2))), f1))
            \<and> CopyAndReplace env fromMemo from fromProps replace f =
                (case replace from f2 of
                   (Panicked p, f3) \<Rightarrow> (Panicked p, f3)
                 | (Returned to, f3) \<Rightarrow>
                     if IsRelExpr to then (Returned (), f3\<lparr>mem := SetRoot to fromProps (mem f3)\<rparr>)
                     else (Panicked (ErrorValue (RuntimeError
                             ''interface conversion: not a memo.RelExpr'')), f3))
            \<and> (\<forall>to f3. replace from f2 = (Returned to, f3) \<and> IsRelExpr to \<longrightarrow>
                  CopyAndReplace env fromMemo from fromProps replace f
                    = (Returned (), f3\<lparr>mem := SetRoot to fromProps (mem f3)\<rparr>)
                  \<and> rootExpr (mem (snd (CopyAndReplace env fromMemo from fromProps replace f))) = Some to
                  \<and> rootProps (mem (snd (CopyAndReplace env fromMemo from fromProps replace f)))
                      = fromProps)"
    if mc: "?mc = (Returned u, f2)" for u f2
  proof -
    have fr: "curRank fromMemo \<le> curRank (mem f2)"
      using Metadata_CopyFrom_frame [OF mc constructs_CopyWithout] seeded by simp
    note cp = Metadata_CopyFrom_copied [OF mc constructs_CopyWithout]
    have eq: "CopyAndReplace env fromMemo from fromProps replace f =
           (case replace from f2 of
              (Panicked p, f3) \<Rightarrow> (Panicked p, f3)
            | (Returned to, f3) \<Rightarrow>
                if IsRelExpr to then (Returned (), f3\<lparr>mem := SetRoot to fromProps (mem f3)\<rparr>)
                else (Panicked (ErrorValue (RuntimeError
                        ''interface conversion: not a memo.RelExpr'')), f3))"
      by (simp add: CopyAndReplace_empty [OF assms] mc)
    have root: "\<forall>to f3. replace from f2 = (Returned to, f3) \<and> IsRelExpr to \<longrightarrow>
             CopyAndReplace env fromMemo from fromProps replace f
               = (Returned (), f3\<lparr>mem := SetRoot to fromProps (mem f3)\<rparr>)
             \<and> rootExpr (mem (snd (CopyAndReplace env fromMemo from fromProps replace f))) = Some to
             \<and> rootProps (mem (snd (CopyAndReplace env fromMemo from fromProps replace f))) = fromProps"
      by (simp add: eq SetRoot_def)
    show ?thesis using fr cp eq root by (simp only: simp_thms)
  qed
  show ?thesis
  proof (intro conjI)
    show "\<forall>u f2. ?mc = (Returned u, f2) \<longrightarrow>
              curRank fromMemo \<le> curRank (mem f2)
            \<and> mdCols (metadata (mem f2)) = mdCols (metadata fromMemo)
            \<and> map fst (mdTables (metadata (mem f2))) = map fst (mdTables (metadata fromMemo))
            \<and> map (\<lambda>t. tabName (snd t)) (mdTables (metadata (mem f2)))
                = map (\<lambda>t. tabName (snd t)) (mdTables (metadata fromMemo))
            \<and> currUniqueID (metadata fromMemo) \<le> currUniqueID (metadata (mem f2))
            \<and> (\<exists>f1. copyTables (CopyWithoutAssigningPlaceholders env) (mdTables (metadata fromMemo))
                       (setMetadata \<lparr>mdCols = mdCols (metadata fromMemo), mdTables = [],
                                     currUniqueID = currUniqueID (metadata fromMemo)\<rparr> ?f1)
                     = (Returned (mdTables (metadata (mem f2))), f1))
            \<and> CopyAndReplace env fromMemo from fromProps replace f =
                (case replace from f2 of
                   (Panicked p, f3) \<Rightarrow> (Panicked p, f3)
                 | (Returned to, f3) \<Rightarrow>
                     if IsRelExpr to then (Returned (), f3\<lparr>mem := SetRoot to fromProps (mem f3)\<rparr>)
                     else (Panicked (ErrorValue (RuntimeError
                             ''interface conversion: not a memo.RelExpr'')), f3))
            \<and> (\<forall>to f3. replace from f2 = (Returned to, f3) \<and> IsRelExpr to \<longrightarrow>
                  CopyAndReplace env fromMemo from fromProps replace f
                    = (Returned (), f3\<lparr>mem := SetRoot to fromProps (mem f3)\<rparr>)
                  \<and> rootExpr (mem (snd (CopyAndReplace env fromMemo from fromProps replace f))) = Some to
                  \<and> rootProps (mem (snd (CopyAndReplace env fromMemo from fromProps replace f)))
                      = fromProps)"
      using after by blast
  qed (rule seeded dflt leaf noev ret exact)+
qed


theorem CopyAndReplace_seeds_copies_sets_root_witness:
  "IsEmpty (mem sampleFactory) \<and> quiet sampleEnv sampleFactory
 \<and> mdTables (metadata sampleMemo)
     = [(53, \<lparr>tabName = ''t'',
               tabExprs = [Expr EqNode [Expr (VariableNode 2) [], Expr (ConstNode (DInt 0) TInt) []]]\<rparr>)]
 \<and> scalarTree (Expr EqNode [Expr (VariableNode 2) [], Expr (ConstNode (DInt 0) TInt) []])
 \<and> (\<exists>f2 to f3.
       Metadata_CopyFrom (metadata sampleMemo) (CopyWithoutAssigningPlaceholders sampleEnv)
         (sampleFactory\<lparr>mem := CopyNextRankFrom sampleMemo (mem sampleFactory)\<rparr>) = (Returned (), f2)
     \<and> metadata (mem f2) = sampleMetadata
     \<and> Expr EqNode [Expr (VariableNode 2) [], Expr (ConstNode (DInt 0) TInt) []]
         \<in> set (interner (mem f2))
     \<and> curRank sampleMemo \<le> curRank (mem f2)
     \<and> replaceFn sampleEnv (sampleRoot 1) f2 = (Returned to, f3) \<and> IsRelExpr to
     \<and> CopyAndReplace sampleEnv sampleMemo (sampleRoot 1) (Some (Required 4)) (replaceFn sampleEnv)
           sampleFactory
         = (Returned (), f3\<lparr>mem := SetRoot to (Some (Required 4)) (mem f3)\<rparr>)
     \<and> rootExpr (mem (snd (CopyAndReplace sampleEnv sampleMemo (sampleRoot 1) (Some (Required 4))
                               (replaceFn sampleEnv) sampleFactory))) = Some to)
 \<and> rootProps (mem (snd (CopyAndReplace sampleEnv sampleMemo (sampleRoot 1) (Some (Required 4))
                           (replaceFn sampleEnv) sampleFactory))) = Some (Required 4)
 \<and> rootExpr (mem (snd (CopyAndReplace sampleEnv sampleMemo (sampleRoot 1) (Some (Required 4))
                           (replaceFn sampleEnv) sampleFactory)))
     = Some (Expr (RelNode 5 0)
              [Expr (RelNode 6 0) [],
               Expr FiltersItemNode
                 [Expr EqNode [Expr (VariableNode 1) [], Expr (ConstNode (DInt 5) TInt) []]]])
 \<and> metadata (mem (snd (CopyAndReplace sampleEnv sampleMemo (sampleRoot 1) (Some (Required 4))
                           (replaceFn sampleEnv) sampleFactory)))
     = sampleMetadata"
proof -
  let ?f1 = "sampleFactory\<lparr>mem := CopyNextRankFrom sampleMemo (mem sampleFactory)\<rparr>"
  let ?car = "CopyAndReplace sampleEnv sampleMemo (sampleRoot 1) (Some (Required 4))
                (replaceFn sampleEnv) sampleFactory"
  let ?x = "Expr EqNode [Expr (VariableNode 2) [], Expr (ConstNode (DInt 0) TInt) []]"
  have em: "IsEmpty (mem sampleFactory)"
    by (simp add: IsEmpty_def sampleFactory_def Init_def Memo_Init_def)
  have q: "quiet sampleEnv sampleFactory"
    by (simp add: quiet_def noRuleFires_def sampleEnv_def sampleFactory_def Init_def
          maxConstructorStackDepth_def)
  have sc: "\<forall>tb \<in> set (mdTables (metadata sampleMemo)). \<forall>x \<in> set (tabExprs (snd tb)). scalarTree x"
    by (simp add: sampleMemo_def sampleMetadata_def)
  have sm: "metadata sampleMemo = sampleMetadata" by (simp add: sampleMemo_def)
  have xin: "(53, \<lparr>tabName = ''t'', tabExprs = [?x]\<rparr>) \<in> set (mdTables (metadata sampleMemo))"
    by (simp add: sampleMemo_def sampleMetadata_def)
  have prod: "\<not> CrdbTestBuild sampleEnv" by (simp add: sampleEnv_def)
  have s1: "safe sampleEnv g" for g using prod by (simp add: safe_def)
  have kk: "rulesKeepKind sampleEnv" by (simp add: rulesKeepKind_def sampleEnv_def)
  note t = CopyAndReplace_seeds_copies_sets_root
             [where f = sampleFactory and fromMemo = sampleMemo and env = sampleEnv
                and ?from = "sampleRoot 1" and fromProps = "Some (Required 4)"
                and replace = "replaceFn sampleEnv" and e = ?x and v = "Placeholder 1"
                and t = TInt and ev = sampleEval, OF em]
  from t q sc
  have "\<exists>f2. Metadata_CopyFrom (metadata sampleMemo) (CopyWithoutAssigningPlaceholders sampleEnv) ?f1
               = (Returned (), f2)
             \<and> metadata (mem f2) = metadata sampleMemo
             \<and> (\<forall>tb \<in> set (mdTables (metadata sampleMemo)). \<forall>x \<in> set (tabExprs (snd tb)).
                   x \<in> set (interner (mem f2)))"
    by blast
  then obtain f2 where mc: "Metadata_CopyFrom (metadata sampleMemo)
                              (CopyWithoutAssigningPlaceholders sampleEnv) ?f1 = (Returned (), f2)"
      and md0: "metadata (mem f2) = metadata sampleMemo"
      and inn: "\<forall>tb \<in> set (mdTables (metadata sampleMemo)). \<forall>x \<in> set (tabExprs (snd tb)).
                   x \<in> set (interner (mem f2))"
    by blast
  have md: "metadata (mem f2) = sampleMetadata" using md0 sm by simp
  have xi: "?x \<in> set (interner (mem f2))" using inn xin by fastforce
  from t mc have a: "curRank sampleMemo \<le> curRank (mem f2)" by blast
  have ctx: "evalCtx f2 = [(1, DInt 5), (2, DBool True)]"
    using Metadata_CopyFrom_frame [OF mc constructs_CopyWithout]
    by (simp add: sampleFactory_def Init_def)
  have fe: "firstEvalError sampleEnv (evalCtx f2) (sampleRoot 1) = None"
    unfolding ctx by (simp add: sampleRoot_def sampleEnv_def sampleEval_def)
  obtain to f3 where rf: "replaceFn sampleEnv (sampleRoot 1) f2 = (Returned to, f3)"
    using replaceFn_succeeds [OF fe s1] by blast
  have rel: "IsRelExpr (sampleRoot 1)" by (simp add: sampleRoot_def IsRelExpr_def)
  have k: "IsRelExpr to" by (rule replaceFn_keeps_kind [OF kk rel rf])
  from t mc rf k
  have e: "?car = (Returned (), f3\<lparr>mem := SetRoot to (Some (Required 4)) (mem f3)\<rparr>)"
    and r: "rootExpr (mem (snd ?car)) = Some to"
    and p: "rootProps (mem (snd ?car)) = Some (Required 4)"
    by blast+
  have v: "rootExpr (mem (snd ?car))
     = Some (Expr (RelNode 5 0)
              [Expr (RelNode 6 0) [],
               Expr FiltersItemNode
                 [Expr EqNode [Expr (VariableNode 1) [], Expr (ConstNode (DInt 5) TInt) []]]])"
    by code_simp
  have w: "metadata (mem (snd ?car)) = sampleMetadata"
    by code_simp
  have ex: "\<exists>f2 to f3.
       Metadata_CopyFrom (metadata sampleMemo) (CopyWithoutAssigningPlaceholders sampleEnv) ?f1
         = (Returned (), f2)
     \<and> metadata (mem f2) = sampleMetadata
     \<and> ?x \<in> set (interner (mem f2))
     \<and> curRank sampleMemo \<le> curRank (mem f2)
     \<and> replaceFn sampleEnv (sampleRoot 1) f2 = (Returned to, f3) \<and> IsRelExpr to
     \<and> ?car = (Returned (), f3\<lparr>mem := SetRoot to (Some (Required 4)) (mem f3)\<rparr>)
     \<and> rootExpr (mem (snd ?car)) = Some to"
    by (rule exI [of _ f2], rule exI [of _ to], rule exI [of _ f3])
       (intro conjI mc md xi a rf k e r)
  have tabs: "mdTables (metadata sampleMemo) = [(53, \<lparr>tabName = ''t'', tabExprs = [?x]\<rparr>)]"
    by (simp add: sampleMemo_def sampleMetadata_def)
  have sx: "scalarTree ?x" by simp
  show ?thesis by (intro conjI em q tabs sx ex p v w)
qed

subsection \<open>Placeholder assignment\<close>

text \<open>
  C6. The substitution of \<open>AssignPlaceholders\<close>, on a Placeholder node whose bound
  value the evaluator evaluates to \<open>d\<close>, returns \<open>ConstructConstVal d t\<close> for the static
  type \<open>t\<close> of the placeholder. \<open>ConstructConstVal\<close> maps the null datum to the Null
  constructor at type \<open>t\<close>, the booleans to the singletons \<open>TrueSingleton\<close> and
  \<open>FalseSingleton\<close> without constructing anything, and every other datum to the Const
  constructor at type \<open>t\<close>; where no rule rewrites the node, the result is the
  canonical constant of \<open>d\<close> at \<open>t\<close>. On every node that is not a Placeholder the
  substitution is \<open>CopyAndReplaceDefault\<close> with itself as the callback.
\<close>

theorem replaceFn_assigns_placeholders:
  "(evalExpr env (evalCtx f) v = Inr d \<longrightarrow>
      replaceFn env (Expr (PlaceholderNode v t) kids) f = ConstructConstVal env d t f)
 \<and> ConstructConstVal env DNull t = ConstructNull env t
 \<and> ConstructNull env t = construct env (Expr (NullNode t) [])
 \<and> ConstructConstVal env (DBool True) t = returnM TrueSingleton
 \<and> ConstructConstVal env (DBool False) t = returnM FalseSingleton
 \<and> (d \<noteq> DNull \<and> (\<forall>b. d \<noteq> DBool b) \<longrightarrow>
      ConstructConstVal env d t = ConstructConst env d t
      \<and> ConstructConst env d t = construct env (Expr (ConstNode d t) []))
 \<and> (quiet env f \<longrightarrow> (\<exists>f'. ConstructConstVal env d t f = (Returned (canonicalConst d t), f')))
 \<and> ((\<forall>v t. n \<noteq> PlaceholderNode v t) \<longrightarrow>
      replaceFn env (Expr n kids) = CopyAndReplaceDefault env (Expr n kids) (replaceFn env))"
proof -
  have a: "evalExpr env (evalCtx f) v = Inr d \<longrightarrow>
      replaceFn env (Expr (PlaceholderNode v t) kids) f = ConstructConstVal env d t f"
    by (simp add: replaceFn_placeholder)
  have b: "d \<noteq> DNull \<and> (\<forall>b. d \<noteq> DBool b) \<longrightarrow>
      ConstructConstVal env d t = ConstructConst env d t
      \<and> ConstructConst env d t = construct env (Expr (ConstNode d t) [])"
    by (cases d) (auto simp add: ConstructConstVal_def ConstructConst_def)
  have c: "quiet env f \<longrightarrow> (\<exists>f'. ConstructConstVal env d t f = (Returned (canonicalConst d t), f'))"
    using ConstructConstVal_quiet [of env f d t] by blast
  have e: "(\<forall>v t. n \<noteq> PlaceholderNode v t) \<longrightarrow>
      replaceFn env (Expr n kids) = CopyAndReplaceDefault env (Expr n kids) (replaceFn env)"
    using replaceFn_default [of n env kids] by blast
  show ?thesis using a b c e
    by (simp add: ConstructConstVal_def ConstructNull_def)
qed

theorem replaceFn_assigns_placeholders_witness:
  "evalExpr sampleEnv (evalCtx sampleFactory) (Placeholder 1) = Inr (DInt 5)
 \<and> replaceFn sampleEnv (Expr (PlaceholderNode (Placeholder 1) TInt) []) sampleFactory
     = ConstructConstVal sampleEnv (DInt 5) TInt sampleFactory
 \<and> ConstructConstVal sampleEnv (DInt 5) TInt = ConstructConst sampleEnv (DInt 5) TInt
 \<and> quiet sampleEnv sampleFactory
 \<and> (\<exists>f'. ConstructConstVal sampleEnv (DInt 5) TInt sampleFactory
            = (Returned (Expr (ConstNode (DInt 5) TInt) []), f'))
 \<and> replaceFn sampleEnv (Expr EqNode [Expr (VariableNode 1) []])
     = CopyAndReplaceDefault sampleEnv (Expr EqNode [Expr (VariableNode 1) []]) (replaceFn sampleEnv)"
proof -
  have ev: "evalExpr sampleEnv (evalCtx sampleFactory) (Placeholder 1) = Inr (DInt 5)"
    by (simp add: sampleEnv_def sampleEval_def sampleFactory_def Init_def)
  have q: "quiet sampleEnv sampleFactory"
    by (simp add: quiet_def noRuleFires_def sampleEnv_def sampleFactory_def Init_def
          maxConstructorStackDepth_def)
  have d: "DInt 5 \<noteq> DNull \<and> (\<forall>b. DInt 5 \<noteq> DBool b)" by simp
  have n: "\<forall>v t. EqNode \<noteq> PlaceholderNode v t" by simp
  have cc: "canonicalConst (DInt 5) TInt = Expr (ConstNode (DInt 5) TInt) []"
    by (simp add: canonicalConst_def)
  note t = replaceFn_assigns_placeholders
             [of sampleEnv sampleFactory "Placeholder 1" "DInt 5" TInt "[]" EqNode]
  note u = replaceFn_assigns_placeholders
             [of sampleEnv sampleFactory "Placeholder 1" "DInt 5" TInt "[Expr (VariableNode 1) []]" EqNode]
  have 1: "replaceFn sampleEnv (Expr (PlaceholderNode (Placeholder 1) TInt) []) sampleFactory
     = ConstructConstVal sampleEnv (DInt 5) TInt sampleFactory"
    using t ev by blast
  have 2: "ConstructConstVal sampleEnv (DInt 5) TInt = ConstructConst sampleEnv (DInt 5) TInt"
    using t d by blast
  have "\<exists>f'. ConstructConstVal sampleEnv (DInt 5) TInt sampleFactory
            = (Returned (canonicalConst (DInt 5) TInt), f')"
    using t q by blast
  then have 3: "\<exists>f'. ConstructConstVal sampleEnv (DInt 5) TInt sampleFactory
            = (Returned (Expr (ConstNode (DInt 5) TInt) []), f')"
    by (simp only: cc)
  have 4: "replaceFn sampleEnv (Expr EqNode [Expr (VariableNode 1) []])
     = CopyAndReplaceDefault sampleEnv (Expr EqNode [Expr (VariableNode 1) []]) (replaceFn sampleEnv)"
    using u n by blast
  show ?thesis by (intro conjI ev 1 2 q 3 4)
qed




subsection \<open>Constant filters\<close>

text \<open>
  C9. \<open>ConstructConstFilter\<close> on a single value constructs the variable of the column,
  the constant of the value at its resolved type, their equality and the filter item
  of that equality, in this order; on more than one value it constructs the constants
  of the values in order, the variable, the tuple of the constants whose type is the
  tuple of the resolved types of the values in order, the membership of the variable
  in the tuple, and its filter item. In a factory where no rule rewrites these nodes
  the result is the filter item of \<open>col = c\<close>, or of \<open>col IN (c1, ..., cn)\<close>, over the
  canonical constants of the values.
\<close>

theorem ConstructConstFilter_eq_or_in:
  "ConstructConstFilter env col [v] =
     andThen (ConstructVariable env col) (\<lambda>var.
     andThen (ConstructConstVal env v (ResolvedType v)) (\<lambda>c.
     andThen (ConstructEq env var c) (\<lambda>eq. ConstructFiltersItem env eq)))
 \<and> (1 < length vals \<longrightarrow> ConstructConstFilter env col vals =
     andThen (mapM (\<lambda>v. ConstructConstVal env v (ResolvedType v)) vals) (\<lambda>elems.
     andThen (ConstructVariable env col) (\<lambda>var.
     andThen (ConstructTuple env elems (MakeTuple (map ResolvedType vals))) (\<lambda>tup.
     andThen (ConstructIn env var tup) (\<lambda>inExpr. ConstructFiltersItem env inExpr)))))
 \<and> (quiet env f \<longrightarrow>
      (\<exists>f'. ConstructConstFilter env col [v] f =
           (Returned (Expr FiltersItemNode
              [Expr EqNode [Expr (VariableNode col) [], canonicalConst v (ResolvedType v)]]), f')))
 \<and> (quiet env f \<and> 1 < length vals \<longrightarrow>
      (\<exists>f'. ConstructConstFilter env col vals f =
           (Returned (Expr FiltersItemNode
              [Expr InNode [Expr (VariableNode col) [],
                            Expr (TupleNode (TTuple (map ResolvedType vals)))
                                 (map (\<lambda>v. canonicalConst v (ResolvedType v)) vals)]]), f')))"
  using ConstructConstFilter_single [of env col v] ConstructConstFilter_many [of vals env col]
    ConstructConstFilter_single_quiet [of env f col v] ConstructConstFilter_many_quiet [of env f vals col]
  by auto

theorem ConstructConstFilter_eq_or_in_witness:
  "quiet sampleEnv sampleFactory
 \<and> (\<exists>f'. ConstructConstFilter sampleEnv 1 [DInt 5] sampleFactory =
          (Returned (Expr FiltersItemNode
             [Expr EqNode [Expr (VariableNode 1) [], Expr (ConstNode (DInt 5) TInt) []]]), f'))
 \<and> 1 < length [DInt 5, DInt 7, DInt 9]
 \<and> (\<exists>f'. ConstructConstFilter sampleEnv 1 [DInt 5, DInt 7, DInt 9] sampleFactory =
          (Returned (Expr FiltersItemNode
             [Expr InNode [Expr (VariableNode 1) [],
                           Expr (TupleNode (TTuple [TInt, TInt, TInt]))
                             [Expr (ConstNode (DInt 5) TInt) [], Expr (ConstNode (DInt 7) TInt) [],
                              Expr (ConstNode (DInt 9) TInt) []]]]), f'))"
proof -
  have q: "quiet sampleEnv sampleFactory"
    by (simp add: quiet_def noRuleFires_def sampleEnv_def sampleFactory_def Init_def
          maxConstructorStackDepth_def)
  have l: "1 < length [DInt 5, DInt 7, DInt 9]" by simp
  note t = ConstructConstFilter_eq_or_in [of sampleEnv 1 "DInt 5" "[DInt 5, DInt 7, DInt 9]" sampleFactory]
  have "\<exists>f'. ConstructConstFilter sampleEnv 1 [DInt 5] sampleFactory =
          (Returned (Expr FiltersItemNode
             [Expr EqNode [Expr (VariableNode 1) [], canonicalConst (DInt 5) (ResolvedType (DInt 5))]]), f')"
    using t q by blast
  then have 1: "\<exists>f'. ConstructConstFilter sampleEnv 1 [DInt 5] sampleFactory =
          (Returned (Expr FiltersItemNode
             [Expr EqNode [Expr (VariableNode 1) [], Expr (ConstNode (DInt 5) TInt) []]]), f')"
    by (simp add: canonicalConst_def)
  have "\<exists>f'. ConstructConstFilter sampleEnv 1 [DInt 5, DInt 7, DInt 9] sampleFactory =
           (Returned (Expr FiltersItemNode
              [Expr InNode [Expr (VariableNode 1) [],
                            Expr (TupleNode (TTuple (map ResolvedType [DInt 5, DInt 7, DInt 9])))
                                 (map (\<lambda>v. canonicalConst v (ResolvedType v)) [DInt 5, DInt 7, DInt 9])]]), f')"
    using t q l by blast
  then have 2: "\<exists>f'. ConstructConstFilter sampleEnv 1 [DInt 5, DInt 7, DInt 9] sampleFactory =
          (Returned (Expr FiltersItemNode
             [Expr InNode [Expr (VariableNode 1) [],
                           Expr (TupleNode (TTuple [TInt, TInt, TInt]))
                             [Expr (ConstNode (DInt 5) TInt) [], Expr (ConstNode (DInt 7) TInt) [],
                              Expr (ConstNode (DInt 9) TInt) []]]]), f')"
    by (simp add: canonicalConst_def)
  show ?thesis by (intro conjI q 1 l 2)
qed

subsection \<open>The depth guard\<close>

text \<open>
  C3 (amended). The threshold \<open>maxConstructorStackDepth\<close> is 10000. When it is exceeded,
  \<open>onMaxConstructorStackDepthExceeded\<close> panics with an assertion failure in a test
  build, and in a production build only sends the report to the sink and returns. A
  constructor entered at a depth counter of 10000 or more (so that the incremented
  counter exceeds the threshold) panics in a test build. In a production build it
  consults none of the rewrite rules (its result is the same for every list of rules),
  reports, interns the node, and still runs the finishing hook: a scalar node is
  returned as it is, and a relational node goes through \<open>onConstructRelational\<close>, whose
  built-in rule \<open>SimplifyZeroCardinalityGroup\<close> replaces it by a Values node without
  rows when it has no rows, is leakproof and the match-veto callback allows the rule
  (the applied-rule callback is then called), and is returned as it is otherwise. It
  always returns a node, with the depth counter restored; the report is the first
  thing it adds to the trace. Below the threshold the rules are consulted.
\<close>

theorem depth_guard_skips_external_rules:
  "maxConstructorStackDepth = 10000
 \<and> (CrdbTestBuild env \<longrightarrow>
       onMaxConstructorStackDepthExceeded env f =
         (Panicked (ErrorValue (AssertionFailed
            ''optimizer factory constructor call stack exceeded max depth of 10000'')), f))
 \<and> (\<not> CrdbTestBuild env \<longrightarrow>
       onMaxConstructorStackDepthExceeded env f =
         (Returned (), f\<lparr>trace := trace f @ [ReportSent (AssertionFailed
            ''optimizer factory constructor call stack exceeded max depth of 10000'')]\<rparr>))
 \<and> (maxConstructorStackDepth \<le> constructorStackDepth f \<and> CrdbTestBuild env \<longrightarrow>
       construct env e f =
         (Panicked (ErrorValue (AssertionFailed
            ''optimizer factory constructor call stack exceeded max depth of 10000'')),
          f\<lparr>constructorStackDepth := constructorStackDepth f + 1\<rparr>))
 \<and> (maxConstructorStackDepth \<le> constructorStackDepth f \<and> \<not> CrdbTestBuild env \<longrightarrow>
       construct env e f =
         internAndFinish env e
           (f\<lparr>constructorStackDepth := constructorStackDepth f + 1,
              trace := trace f @ [ReportSent (AssertionFailed
                ''optimizer factory constructor call stack exceeded max depth of 10000'')]\<rparr>)
       \<and> construct env e f = construct (env\<lparr>rules := rs\<rparr>) e f
       \<and> (\<exists>x f'. construct env e f = (Returned x, f')
                   \<and> constructorStackDepth f' = constructorStackDepth f)
       \<and> (\<not> IsRelExpr e \<longrightarrow>
             construct env e f =
               (Returned e,
                f\<lparr>mem := Memoize e (mem f),
                   trace := trace f @ [ReportSent (AssertionFailed
                     ''optimizer factory constructor call stack exceeded max depth of 10000'')]\<rparr>))
       \<and> (IsRelExpr e \<longrightarrow>
             fst (construct env e f) =
               Returned (fst (onConstructRelational env e
                 (f\<lparr>constructorStackDepth := constructorStackDepth f + 1,
                    trace := trace f @ [ReportSent (AssertionFailed
                      ''optimizer factory constructor call stack exceeded max depth of 10000'')],
                    mem := Memoize e (mem f)\<rparr>))))
       \<and> (IsRelExpr e \<and> Op e \<noteq> ValuesOp \<and> IsZero (Cardinality (cachedProps env e))
            \<and> IsLeakproof (VolatilitySet (cachedProps env e))
            \<and> ruleAllowed f SimplifyZeroCardinalityGroup \<longrightarrow>
             fst (construct env e f) =
               Returned (Expr (ValuesNode (OutputCols (cachedProps env e))
                                (currUniqueID (metadata (mem f)) + 1)) [])
             \<and> take (length (trace f) + 1) (trace (snd (construct env e f))) =
                 trace f @ [ReportSent (AssertionFailed
                      ''optimizer factory constructor call stack exceeded max depth of 10000'')]
             \<and> (\<forall>cb. appliedRule f = Some cb \<longrightarrow>
                   last (trace (snd (construct env e f))) =
                     AppliedRuleCalled cb SimplifyZeroCardinalityGroup None
                       (Expr (ValuesNode (OutputCols (cachedProps env e))
                                (currUniqueID (metadata (mem f)) + 1)) [])))
       \<and> (\<not> (IsRelExpr e \<and> Op e \<noteq> ValuesOp \<and> IsZero (Cardinality (cachedProps env e))
               \<and> IsLeakproof (VolatilitySet (cachedProps env e))
               \<and> ruleAllowed f SimplifyZeroCardinalityGroup) \<longrightarrow>
             fst (construct env e f) = Returned e
             \<and> trace (snd (construct env e f)) =
                 trace f @ [ReportSent (AssertionFailed
                      ''optimizer factory constructor call stack exceeded max depth of 10000'')]))
 \<and> (constructorStackDepth f < maxConstructorStackDepth \<longrightarrow>
       construct env e f =
         (case findRule f (rules env) e of
            None \<Rightarrow> internAndFinish env e (f\<lparr>constructorStackDepth := constructorStackDepth f + 1\<rparr>)
          | Some (r, e') \<Rightarrow>
              (case construct env e' (f\<lparr>constructorStackDepth := constructorStackDepth f + 1\<rparr>) of
                 (Panicked p, f2) \<Rightarrow> (Panicked p, f2)
               | (Returned x, f2) \<Rightarrow>
                   (Returned x, (notifyApplied (ruleName r) x f2)
                      \<lparr>constructorStackDepth :=
                         constructorStackDepth (notifyApplied (ruleName r) x f2) - 1\<rparr>))))"
proof -
  let ?err = "AssertionFailed ''optimizer factory constructor call stack exceeded max depth of 10000''"
  let ?f1 = "f\<lparr>constructorStackDepth := constructorStackDepth f + 1\<rparr>"
  let ?hook = "IsRelExpr e \<and> Op e \<noteq> ValuesOp \<and> IsZero (Cardinality (cachedProps env e))
               \<and> IsLeakproof (VolatilitySet (cachedProps env e))
               \<and> ruleAllowed f SimplifyZeroCardinalityGroup"
  let ?vals = "Expr (ValuesNode (OutputCols (cachedProps env e))
                                (currUniqueID (metadata (mem f)) + 1)) []"
  have a: "maxConstructorStackDepth = 10000" by (simp add: maxConstructorStackDepth_def)
  have b: "CrdbTestBuild env \<longrightarrow> onMaxConstructorStackDepthExceeded env f = (Panicked (ErrorValue ?err), f)"
    by (simp add: onMaxConstructorStackDepthExceeded_def)
  have c: "\<not> CrdbTestBuild env \<longrightarrow> onMaxConstructorStackDepthExceeded env f
             = (Returned (), f\<lparr>trace := trace f @ [ReportSent ?err]\<rparr>)"
    by (simp add: onMaxConstructorStackDepthExceeded_def SendReport_def)
  have d: "maxConstructorStackDepth \<le> constructorStackDepth f \<and> CrdbTestBuild env \<longrightarrow>
             construct env e f = (Panicked (ErrorValue ?err), ?f1)"
    by (simp add: construct_guard onMaxConstructorStackDepthExceeded_def)
  have e1: "construct env e f = internAndFinish env e (?f1\<lparr>trace := trace f @ [ReportSent ?err]\<rparr>)"
    if "maxConstructorStackDepth \<le> constructorStackDepth f" "\<not> CrdbTestBuild env" for env
    using that by (simp add: construct_guard onMaxConstructorStackDepthExceeded_def SendReport_def)
  have iaf: "internAndFinish (env\<lparr>rules := rs\<rparr>) e g = internAndFinish env e g" for g
    by (simp add: internAndFinish_def onConstructRelational_def Let_def)
  have e2: "construct env e f = construct (env\<lparr>rules := rs\<rparr>) e f"
    if "maxConstructorStackDepth \<le> constructorStackDepth f" "\<not> CrdbTestBuild env"
    using e1 [of env] e1 [of "env\<lparr>rules := rs\<rparr>"] that by (simp add: iaf)
  have e3: "\<exists>x f'. construct env e f = (Returned x, f') \<and> constructorStackDepth f' = constructorStackDepth f"
    if "\<not> CrdbTestBuild env"
  proof -
    have "safe env f" using that by (simp add: safe_def)
    then obtain x f' where r: "construct env e f = (Returned x, f')"
      using construct_returns by blast
    then show ?thesis using construct_frame [OF r] by blast
  qed
  have e4: "\<not> IsRelExpr e \<longrightarrow> construct env e f =
               (Returned e, f\<lparr>mem := Memoize e (mem f), trace := trace f @ [ReportSent ?err]\<rparr>)"
    if "maxConstructorStackDepth \<le> constructorStackDepth f" "\<not> CrdbTestBuild env"
    using e1 [of env] that by (simp add: internAndFinish_scalar)
  have e5: "IsRelExpr e \<longrightarrow> fst (construct env e f) =
               Returned (fst (onConstructRelational env e
                 (f\<lparr>constructorStackDepth := constructorStackDepth f + 1,
                    trace := trace f @ [ReportSent ?err], mem := Memoize e (mem f)\<rparr>)))"
    if "maxConstructorStackDepth \<le> constructorStackDepth f" "\<not> CrdbTestBuild env"
    using e1 [of env] that by (simp add: internAndFinish_def Let_def split: prod.splits)
  have e6: "?hook \<longrightarrow> fst (construct env e f) = Returned ?vals
             \<and> take (length (trace f) + 1) (trace (snd (construct env e f))) = trace f @ [ReportSent ?err]
             \<and> (\<forall>cb. appliedRule f = Some cb \<longrightarrow>
                   last (trace (snd (construct env e f))) =
                     AppliedRuleCalled cb SimplifyZeroCardinalityGroup None ?vals)"
    if "maxConstructorStackDepth \<le> constructorStackDepth f" "\<not> CrdbTestBuild env"
    using e1 [of env] that
    by (simp add: internAndFinish_def onConstructRelational_def ConstructEmptyValues_def
          NextUniqueID_def notifyApplied_def Memoize_def ruleAllowed_def Let_def
        split: prod.splits option.splits)
  have e7: "\<not> ?hook \<longrightarrow> fst (construct env e f) = Returned e
             \<and> trace (snd (construct env e f)) = trace f @ [ReportSent ?err]"
    if "maxConstructorStackDepth \<le> constructorStackDepth f" "\<not> CrdbTestBuild env"
    using e1 [of env] that
    by (auto simp add: internAndFinish_def onConstructRelational_def onConstructScalar_def
          Memoize_def ruleAllowed_def Let_def
        split: prod.splits option.splits)
  have g: "constructorStackDepth f < maxConstructorStackDepth \<longrightarrow>
       construct env e f =
         (case findRule f (rules env) e of
            None \<Rightarrow> internAndFinish env e ?f1
          | Some (r, e') \<Rightarrow>
              (case construct env e' ?f1 of
                 (Panicked p, f2) \<Rightarrow> (Panicked p, f2)
               | (Returned x, f2) \<Rightarrow>
                   (Returned x, (notifyApplied (ruleName r) x f2)
                      \<lparr>constructorStackDepth :=
                         constructorStackDepth (notifyApplied (ruleName r) x f2) - 1\<rparr>)))"
    by (auto simp add: construct_norule construct_rule split: option.splits)
  show ?thesis
  proof (intro conjI)
    show "maxConstructorStackDepth \<le> constructorStackDepth f \<and> \<not> CrdbTestBuild env \<longrightarrow>
       construct env e f =
         internAndFinish env e
           (f\<lparr>constructorStackDepth := constructorStackDepth f + 1,
              trace := trace f @ [ReportSent ?err]\<rparr>)
       \<and> construct env e f = construct (env\<lparr>rules := rs\<rparr>) e f
       \<and> (\<exists>x f'. construct env e f = (Returned x, f')
                   \<and> constructorStackDepth f' = constructorStackDepth f)
       \<and> (\<not> IsRelExpr e \<longrightarrow>
             construct env e f =
               (Returned e, f\<lparr>mem := Memoize e (mem f), trace := trace f @ [ReportSent ?err]\<rparr>))
       \<and> (IsRelExpr e \<longrightarrow>
             fst (construct env e f) =
               Returned (fst (onConstructRelational env e
                 (f\<lparr>constructorStackDepth := constructorStackDepth f + 1,
                    trace := trace f @ [ReportSent ?err], mem := Memoize e (mem f)\<rparr>))))
       \<and> (?hook \<longrightarrow>
             fst (construct env e f) = Returned ?vals
             \<and> take (length (trace f) + 1) (trace (snd (construct env e f))) = trace f @ [ReportSent ?err]
             \<and> (\<forall>cb. appliedRule f = Some cb \<longrightarrow>
                   last (trace (snd (construct env e f))) =
                     AppliedRuleCalled cb SimplifyZeroCardinalityGroup None ?vals))
       \<and> (\<not> ?hook \<longrightarrow>
             fst (construct env e f) = Returned e
             \<and> trace (snd (construct env e f)) = trace f @ [ReportSent ?err])"
    proof (intro impI, elim conjE, intro conjI)
      assume h: "maxConstructorStackDepth \<le> constructorStackDepth f" "\<not> CrdbTestBuild env"
      show "construct env e f = internAndFinish env e
             (f\<lparr>constructorStackDepth := constructorStackDepth f + 1,
                trace := trace f @ [ReportSent ?err]\<rparr>)"
        using e1 [OF h] by simp
      show "construct env e f = construct (env\<lparr>rules := rs\<rparr>) e f" by (rule e2 [OF h])
      show "\<exists>x f'. construct env e f = (Returned x, f') \<and> constructorStackDepth f' = constructorStackDepth f"
        by (rule e3 [OF h(2)])
      show "\<not> IsRelExpr e \<longrightarrow> construct env e f =
               (Returned e, f\<lparr>mem := Memoize e (mem f), trace := trace f @ [ReportSent ?err]\<rparr>)"
        by (rule e4 [OF h])
      show "IsRelExpr e \<longrightarrow> fst (construct env e f) =
               Returned (fst (onConstructRelational env e
                 (f\<lparr>constructorStackDepth := constructorStackDepth f + 1,
                    trace := trace f @ [ReportSent ?err], mem := Memoize e (mem f)\<rparr>)))"
        by (rule e5 [OF h])
      show "?hook \<longrightarrow> fst (construct env e f) = Returned ?vals
             \<and> take (length (trace f) + 1) (trace (snd (construct env e f))) = trace f @ [ReportSent ?err]
             \<and> (\<forall>cb. appliedRule f = Some cb \<longrightarrow>
                   last (trace (snd (construct env e f))) =
                     AppliedRuleCalled cb SimplifyZeroCardinalityGroup None ?vals)"
        by (rule e6 [OF h])
      show "\<not> ?hook \<longrightarrow> fst (construct env e f) = Returned e
             \<and> trace (snd (construct env e f)) = trace f @ [ReportSent ?err]"
        by (rule e7 [OF h])
    qed
  qed (rule a b c d g)+
qed


theorem depth_guard_skips_external_rules_witness:
  "maxConstructorStackDepth \<le> constructorStackDepth (sampleFactory\<lparr>constructorStackDepth := 10000\<rparr>)
 \<and> CrdbTestBuild (sampleEnv\<lparr>CrdbTestBuild := True\<rparr>)
 \<and> fst (construct (sampleEnv\<lparr>CrdbTestBuild := True\<rparr>) (Expr (VariableNode 1) [])
          (sampleFactory\<lparr>constructorStackDepth := 10000\<rparr>))
     = Panicked (ErrorValue (AssertionFailed
         ''optimizer factory constructor call stack exceeded max depth of 10000''))
 \<and> \<not> CrdbTestBuild sampleEnv
 \<and> \<not> IsRelExpr (Expr (VariableNode 1) [])
 \<and> fst (construct sampleEnv (Expr (VariableNode 1) [])
          (sampleFactory\<lparr>constructorStackDepth := 10000\<rparr>))
     = Returned (Expr (VariableNode 1) [])
 \<and> construct sampleEnv (Expr (VariableNode 1) []) (sampleFactory\<lparr>constructorStackDepth := 10000\<rparr>)
     = construct (sampleEnv\<lparr>rules := [\<lparr>ruleName = NormRule 1,
                    rewrite = (\<lambda>e. if e = Expr (VariableNode 1) [] then Some (Expr (VariableNode 2) [])
                                    else None)\<rparr>]\<rparr>)
         (Expr (VariableNode 1) []) (sampleFactory\<lparr>constructorStackDepth := 10000\<rparr>)
 \<and> IsRelExpr (Expr (RelNode 0 0) []) \<and> Op (Expr (RelNode 0 0) []) \<noteq> ValuesOp
 \<and> IsZero (Cardinality (cachedProps sampleEnv (Expr (RelNode 0 0) [])))
 \<and> IsLeakproof (VolatilitySet (cachedProps sampleEnv (Expr (RelNode 0 0) [])))
 \<and> ruleAllowed (NotifyOnAppliedRule (Some 9) (sampleFactory\<lparr>constructorStackDepth := 10000\<rparr>))
      SimplifyZeroCardinalityGroup
 \<and> fst (construct sampleEnv (Expr (RelNode 0 0) [])
          (NotifyOnAppliedRule (Some 9) (sampleFactory\<lparr>constructorStackDepth := 10000\<rparr>)))
     = Returned (Expr (ValuesNode [1, 2] 1) [])
 \<and> \<not> IsZero (Cardinality (cachedProps sampleEnv (Expr (RelNode 3 0) [])))
 \<and> fst (construct sampleEnv (Expr (RelNode 3 0) [])
          (sampleFactory\<lparr>constructorStackDepth := 10000\<rparr>))
     = Returned (Expr (RelNode 3 0) [])
 \<and> constructorStackDepth (sampleFactory\<lparr>constructorStackDepth := 9999\<rparr>) < maxConstructorStackDepth
 \<and> fst (construct (sampleEnv\<lparr>rules := [\<lparr>ruleName = NormRule 1,
                    rewrite = (\<lambda>e. if e = Expr (VariableNode 1) [] then Some (Expr (VariableNode 2) [])
                                    else None)\<rparr>]\<rparr>)
         (Expr (VariableNode 1) []) (sampleFactory\<lparr>constructorStackDepth := 9999\<rparr>))
     = Returned (Expr (VariableNode 2) [])"
proof -
  let ?err = "AssertionFailed ''optimizer factory constructor call stack exceeded max depth of 10000''"
  let ?f = "sampleFactory\<lparr>constructorStackDepth := 10000\<rparr>"
  let ?fa = "NotifyOnAppliedRule (Some 9) ?f"
  let ?g = "sampleFactory\<lparr>constructorStackDepth := 9999\<rparr>"
  let ?test = "sampleEnv\<lparr>CrdbTestBuild := True\<rparr>"
  let ?rs = "[\<lparr>ruleName = NormRule 1,
               rewrite = (\<lambda>e. if e = Expr (VariableNode 1) [] then Some (Expr (VariableNode 2) [])
                               else None)\<rparr>]"
  let ?renv = "sampleEnv\<lparr>rules := ?rs\<rparr>"
  let ?v = "Expr (VariableNode 1) []"
  let ?z = "Expr (RelNode 0 0) []"
  let ?n = "Expr (RelNode 3 0) []"
  have d: "maxConstructorStackDepth \<le> constructorStackDepth ?f"
    by (simp add: maxConstructorStackDepth_def)
  have da: "maxConstructorStackDepth \<le> constructorStackDepth ?fa"
    by (simp add: maxConstructorStackDepth_def NotifyOnAppliedRule_def)
  have d9: "constructorStackDepth ?g < maxConstructorStackDepth"
    by (simp add: maxConstructorStackDepth_def)
  have tb: "CrdbTestBuild ?test" by simp
  have pb: "\<not> CrdbTestBuild sampleEnv" "\<not> CrdbTestBuild ?renv" by (simp_all add: sampleEnv_def)
  have sc: "\<not> IsRelExpr ?v" "\<not> IsRelExpr (Expr (VariableNode 2) [])" by (simp_all add: IsRelExpr_def)
  have rz: "IsRelExpr ?z" and oz: "Op ?z \<noteq> ValuesOp" by (simp_all add: IsRelExpr_def)
  have cz: "IsZero (Cardinality (cachedProps sampleEnv ?z))"
    and lz: "IsLeakproof (VolatilitySet (cachedProps sampleEnv ?z))"
    and oc: "OutputCols (cachedProps sampleEnv ?z) = [1, 2]"
    by (simp_all add: sampleEnv_def sampleProps_def IsZero_def IsLeakproof_def)
  have az: "ruleAllowed ?fa SimplifyZeroCardinalityGroup"
    by (simp add: ruleAllowed_def NotifyOnAppliedRule_def sampleFactory_def Init_def)
  have uz: "currUniqueID (metadata (mem ?fa)) + 1 = 1"
    by (simp add: NotifyOnAppliedRule_def sampleFactory_def Init_def Memo_Init_def)
  have cn: "\<not> IsZero (Cardinality (cachedProps sampleEnv ?n))"
    by (simp add: sampleEnv_def sampleProps_def IsZero_def)
  note t1 = depth_guard_skips_external_rules [of ?test ?f ?v ?rs]
  note t2 = depth_guard_skips_external_rules [of sampleEnv ?f ?v ?rs]
  note t3 = depth_guard_skips_external_rules [of ?renv ?g ?v ?rs]
  note t4 = depth_guard_skips_external_rules [of ?renv ?f "Expr (VariableNode 2) []" ?rs]
  note t5 = depth_guard_skips_external_rules [of sampleEnv ?fa ?z ?rs]
  note t6 = depth_guard_skips_external_rules [of sampleEnv ?f ?n ?rs]
  have 1: "fst (construct ?test ?v ?f) = Panicked (ErrorValue ?err)"
  proof -
    from t1 d tb have "construct ?test ?v ?f
        = (Panicked (ErrorValue ?err), ?f\<lparr>constructorStackDepth := constructorStackDepth ?f + 1\<rparr>)"
      by blast
    then show ?thesis by simp
  qed
  have 2: "fst (construct sampleEnv ?v ?f) = Returned ?v"
  proof -
    from t2 d pb(1) sc(1) have "construct sampleEnv ?v ?f =
        (Returned ?v, ?f\<lparr>mem := Memoize ?v (mem ?f), trace := trace ?f @ [ReportSent ?err]\<rparr>)"
      by blast
    then show ?thesis by simp
  qed
  have 3: "construct sampleEnv ?v ?f = construct ?renv ?v ?f" using t2 d pb(1) by blast
  have 5: "fst (construct sampleEnv ?z ?fa) = Returned (Expr (ValuesNode [1, 2] 1) [])"
  proof -
    from t5 da pb(1) rz oz cz lz az
    have "fst (construct sampleEnv ?z ?fa)
            = Returned (Expr (ValuesNode (OutputCols (cachedProps sampleEnv ?z))
                               (currUniqueID (metadata (mem ?fa)) + 1)) [])"
      by blast
    then show ?thesis unfolding oc uz .
  qed
  have 6: "fst (construct sampleEnv ?n ?f) = Returned ?n" using t6 d pb(1) cn by blast
  have fr: "findRule ?g (rules ?renv) ?v = Some (hd ?rs, Expr (VariableNode 2) [])"
    by (simp add: ruleAllowed_def sampleFactory_def Init_def)
  have g1: "?g\<lparr>constructorStackDepth := constructorStackDepth ?g + 1\<rparr> = ?f" by simp
  from t4 d pb(2) sc(2) have c2: "construct ?renv (Expr (VariableNode 2) []) ?f
       = (Returned (Expr (VariableNode 2) []),
          ?f\<lparr>mem := Memoize (Expr (VariableNode 2) []) (mem ?f),
             trace := trace ?f @ [ReportSent ?err]\<rparr>)"
    by blast
  from t3 d9 have eq: "construct ?renv ?v ?g =
         (case findRule ?g (rules ?renv) ?v of
            None \<Rightarrow> internAndFinish ?renv ?v (?g\<lparr>constructorStackDepth := constructorStackDepth ?g + 1\<rparr>)
          | Some (r, e') \<Rightarrow>
              (case construct ?renv e' (?g\<lparr>constructorStackDepth := constructorStackDepth ?g + 1\<rparr>) of
                 (Panicked p, f2) \<Rightarrow> (Panicked p, f2)
               | (Returned x, f2) \<Rightarrow>
                   (Returned x, (notifyApplied (ruleName r) x f2)
                      \<lparr>constructorStackDepth :=
                         constructorStackDepth (notifyApplied (ruleName r) x f2) - 1\<rparr>)))"
    by blast
  have 4: "fst (construct ?renv ?v ?g) = Returned (Expr (VariableNode 2) [])"
    unfolding eq fr g1 option.case prod.case c2 by simp
  show ?thesis by (intro conjI d tb 1 pb(1) sc(1) 2 3 rz oz cz lz az 5 cn 6 d9 4)
qed

text \<open>
  C3, counterexample to "no further normalization rules are applied" once the depth
  exceeds the threshold: in a production build, a constructor entered at depth 10000
  with a relational node that has no rows and is leakproof reports, and then its
  finishing hook applies \<open>SimplifyZeroCardinalityGroup\<close>: the node returned is the
  Values node, not the node constructed, and the last thing done is the call of the
  applied-rule callback for that rule.
\<close>

theorem depth_guard_builtin_rule_still_applied:
  "\<not> CrdbTestBuild sampleEnv
 \<and> maxConstructorStackDepth
      < constructorStackDepth (NotifyOnAppliedRule (Some 9)
                                 (sampleFactory\<lparr>constructorStackDepth := 10000\<rparr>)) + 1
 \<and> fst (construct sampleEnv (Expr (RelNode 0 0) [])
          (NotifyOnAppliedRule (Some 9) (sampleFactory\<lparr>constructorStackDepth := 10000\<rparr>)))
     = Returned (Expr (ValuesNode [1, 2] 1) [])
 \<and> last (trace (snd (construct sampleEnv (Expr (RelNode 0 0) [])
          (NotifyOnAppliedRule (Some 9) (sampleFactory\<lparr>constructorStackDepth := 10000\<rparr>)))))
     = AppliedRuleCalled 9 SimplifyZeroCardinalityGroup None (Expr (ValuesNode [1, 2] 1) [])"
proof -
  let ?fa = "NotifyOnAppliedRule (Some 9) (sampleFactory\<lparr>constructorStackDepth := 10000\<rparr>)"
  let ?err = "AssertionFailed ''optimizer factory constructor call stack exceeded max depth of 10000''"
  have pb: "\<not> CrdbTestBuild sampleEnv" by (simp add: sampleEnv_def)
  have da: "maxConstructorStackDepth \<le> constructorStackDepth ?fa"
    by (simp add: maxConstructorStackDepth_def NotifyOnAppliedRule_def)
  then have db: "maxConstructorStackDepth < constructorStackDepth ?fa + 1" by simp
  have eq: "construct sampleEnv (Expr (RelNode 0 0) []) ?fa
      = internAndFinish sampleEnv (Expr (RelNode 0 0) [])
          (?fa\<lparr>constructorStackDepth := constructorStackDepth ?fa + 1,
               trace := trace ?fa @ [ReportSent ?err]\<rparr>)"
    using da pb
    by (simp add: construct_guard onMaxConstructorStackDepthExceeded_def SendReport_def)
  have r: "fst (construct sampleEnv (Expr (RelNode 0 0) []) ?fa)
             = Returned (Expr (ValuesNode [1, 2] 1) [])"
    unfolding eq
    by (simp add: internAndFinish_def onConstructRelational_def ConstructEmptyValues_def
          NextUniqueID_def notifyApplied_def Memoize_def ruleAllowed_def Let_def IsRelExpr_def
          sampleEnv_def sampleProps_def IsZero_def IsLeakproof_def NotifyOnAppliedRule_def
          sampleFactory_def Init_def Memo_Init_def)
  have t: "last (trace (snd (construct sampleEnv (Expr (RelNode 0 0) []) ?fa)))
     = AppliedRuleCalled 9 SimplifyZeroCardinalityGroup None (Expr (ValuesNode [1, 2] 1) [])"
    unfolding eq
    by (simp add: internAndFinish_def onConstructRelational_def ConstructEmptyValues_def
          NextUniqueID_def notifyApplied_def Memoize_def ruleAllowed_def Let_def IsRelExpr_def
          sampleEnv_def sampleProps_def IsZero_def IsLeakproof_def NotifyOnAppliedRule_def
          sampleFactory_def Init_def Memo_Init_def)
  show ?thesis by (intro conjI pb db r t)
qed

subsection \<open>Interning\<close>




end
